theory Spec2Isabelle
  imports Complex_Main "HOL-Library.Sublist"
begin

section \<open>Strings and the regular expressions of \<^verbatim>\<open>app/index.tsx\<close>\<close>

text \<open>
  A JavaScript string is modelled as a \<^typ>\<open>string\<close>: a list of code units, here the
  code units below 256. Everything the source does to the address is a comparison with
  ASCII characters, so the code units above ASCII only ever pass through unchanged.
\<close>

definition is_space :: "char \<Rightarrow> bool" where
  \<comment> \<open>the white space and line terminators that \<^verbatim>\<open>String.prototype.trim\<close> removes, among
      the code units below 256: TAB, LF, VT, FF, CR, SP, NBSP\<close>
  "is_space c =
     (c \<in> set [CHR 0x09, CHR 0x0A, CHR 0x0B, CHR 0x0C, CHR 0x0D, CHR 0x20, CHR 0xA0])"

definition trim :: "string \<Rightarrow> string" where
  \<comment> \<open>\<^verbatim>\<open>s.trim()\<close>\<close>
  "trim s = rev (dropWhile is_space (rev (dropWhile is_space s)))"

fun match_classes :: "string list \<Rightarrow> string \<Rightarrow> bool" where
  \<comment> \<open>an anchored pattern \<^verbatim>\<open>/^.../\<close> given as one character class per position\<close>
  "match_classes [] s = True"
| "match_classes (k # ks) [] = False"
| "match_classes (k # ks) (c # cs) = (c \<in> set k \<and> match_classes ks cs)"

definition re_http :: "string list" where
  \<comment> \<open>\<^verbatim>\<open>/^(http:\/\/)/i\<close>: without the \<^verbatim>\<open>u\<close> flag only the two ASCII cases of a letter match\<close>
  "re_http = [''hH'', ''tT'', ''tT'', ''pP'', '':'', ''/'', ''/'']"

definition re_https :: "string list" where
  "re_https = [''hH'', ''tT'', ''tT'', ''pP'', ''sS'', '':'', ''/'', ''/'']"

definition re_ws :: "string list" where
  "re_ws = [''wW'', ''sS'', '':'', ''/'', ''/'']"

definition re_wss :: "string list" where
  "re_wss = [''wW'', ''sS'', ''sS'', '':'', ''/'', ''/'']"

definition strip_http :: "string \<Rightarrow> string" where
  \<comment> \<open>\<^verbatim>\<open>s.replace(/^(https?:\/\/)/i, '')\<close>\<close>
  "strip_http s =
     (if match_classes re_https s then drop 8 s
      else if match_classes re_http s then drop 7 s
      else s)"

definition strip_wss :: "string \<Rightarrow> string" where
  \<comment> \<open>\<^verbatim>\<open>s.replace(/^(wss?:\/\/)/i, '')\<close>\<close>
  "strip_wss s =
     (if match_classes re_wss s then drop 6 s
      else if match_classes re_ws s then drop 5 s
      else s)"

definition strip_slashes :: "string \<Rightarrow> string" where
  \<comment> \<open>\<^verbatim>\<open>s.replace(/\/+$/, '')\<close>: the whole trailing run of slashes goes\<close>
  "strip_slashes s = rev (dropWhile (\<lambda>c. c = CHR ''/'') (rev s))"

definition is_digit :: "char \<Rightarrow> bool" where
  \<comment> \<open>\<^verbatim>\<open>\d\<close>\<close>
  "is_digit c = (c \<in> set ''0123456789'')"

definition strip_port :: "string \<Rightarrow> string" where
  \<comment> \<open>\<^verbatim>\<open>s.replace(/:\d+$/, '')\<close>: a colon followed by one or more digits up to the end\<close>
  "strip_port s =
     (let r = rev s; ds = takeWhile is_digit r; rest = dropWhile is_digit r
      in if ds \<noteq> [] \<and> rest \<noteq> [] \<and> hd rest = CHR '':'' then rev (tl rest) else s)"

fun includes_str :: "string \<Rightarrow> string \<Rightarrow> bool" where
  \<comment> \<open>\<^verbatim>\<open>s.includes(sub)\<close>, written \<open>includes_str sub s\<close>\<close>
  "includes_str sub [] = (sub = [])"
| "includes_str sub (c # cs) = (prefix sub (c # cs) \<or> includes_str sub cs)"

section \<open>Endpoint resolution\<close>

definition isNgrok :: "string \<Rightarrow> bool" where
  "isNgrok cleanIP =
     (includes_str ''.ngrok-free.dev'' cleanIP \<or> includes_str ''.ngrok-free.app'' cleanIP
      \<or> includes_str ''.ngrok.'' cleanIP)"

definition connect_cleanIP :: "string \<Rightarrow> string" where
  \<comment> \<open>\<^verbatim>\<open>cleanIP\<close> of \<^verbatim>\<open>connectToServer\<close>, before the branch on the kind of host\<close>
  "connect_cleanIP piIP = strip_slashes (strip_wss (strip_http (trim piIP)))"

definition connect_url :: "string \<Rightarrow> string" where
  \<comment> \<open>\<^verbatim>\<open>url\<close> of \<^verbatim>\<open>connectToServer\<close>\<close>
  "connect_url piIP =
     (let cleanIP = connect_cleanIP piIP
      in if isNgrok cleanIP then ''wss://'' @ strip_port cleanIP
         else if CHR '':'' \<in> set cleanIP then ''ws://'' @ cleanIP
         else ''ws://'' @ cleanIP @ '':8765'')"

definition camera_cleanIP :: "string \<Rightarrow> string" where
  \<comment> \<open>\<^verbatim>\<open>cleanIP\<close> of \<^verbatim>\<open>DraggableResizableCamera\<close>: the same replacements, with no trim\<close>
  "camera_cleanIP piIP = strip_slashes (strip_wss (strip_http piIP))"

definition cameraUrl :: "string \<Rightarrow> string" where
  "cameraUrl piIP =
     (let cleanIP = camera_cleanIP piIP
      in if isNgrok cleanIP then ''https://'' @ strip_port cleanIP @ ''/camera''
         else if CHR '':'' \<in> set cleanIP then ''http://'' @ cleanIP @ ''/camera''
         else ''http://'' @ cleanIP @ '':8765/camera'')"

datatype error = InvalidEndpoint

record EndpointDescriptor =
  controlURL :: string
  mediaBaseURL :: string

definition resolve :: "string \<Rightarrow> error + EndpointDescriptor" where
  \<comment> \<open>The path of a raw address through the component: \<^verbatim>\<open>handleSaveSettings\<close> trims it
      and refuses the empty string, the trimmed string becomes \<^verbatim>\<open>piIP\<close>, from which
      \<^verbatim>\<open>connectToServer\<close> derives the WebSocket URL and the camera overlay its stream URL.\<close>
  "resolve raw =
     (let piIP = trim raw
      in if piIP = [] then Inl InvalidEndpoint
         else Inr \<lparr>controlURL = connect_url piIP, mediaBaseURL = cameraUrl piIP\<rparr>)"

fun exact_match :: "string list \<Rightarrow> string \<Rightarrow> bool" where
  \<comment> \<open>the whole string is one match of the pattern\<close>
  "exact_match [] s = (s = [])"
| "exact_match (k # ks) [] = False"
| "exact_match (k # ks) (c # cs) = (c \<in> set k \<and> exact_match ks cs)"

definition scheme_prefix :: "string \<Rightarrow> bool" where
  \<comment> \<open>one of \<^verbatim>\<open>http://\<close>, \<^verbatim>\<open>https://\<close>, \<^verbatim>\<open>ws://\<close>, \<^verbatim>\<open>wss://\<close>, in any letter case\<close>
  "scheme_prefix p =
     (exact_match re_http p \<or> exact_match re_https p \<or> exact_match re_ws p
      \<or> exact_match re_wss p)"

definition has_scheme :: "string \<Rightarrow> bool" where
  \<comment> \<open>the string starts with something one of the two prefix replacements removes\<close>
  "has_scheme s =
     (match_classes re_http s \<or> match_classes re_https s \<or> match_classes re_ws s
      \<or> match_classes re_wss s)"

definition bare_address :: "string \<Rightarrow> bool" where
  \<comment> \<open>a non-empty address with no white space around it and no scheme of its own, not even
      one that trailing slashes would complete (as in \<^verbatim>\<open>ws:\<close>)\<close>
  "bare_address h =
     (h \<noteq> [] \<and> \<not> is_space (hd h) \<and> \<not> is_space (last h) \<and> \<not> has_scheme (h @ ''//''))"

definition ipv6_literal :: "string \<Rightarrow> bool" where
  \<comment> \<open>a bracketed IPv6 literal: hexadecimal digits, colons and dots between \<^verbatim>\<open>[\<close> and \<^verbatim>\<open>]\<close>\<close>
  "ipv6_literal l =
     (3 \<le> length l \<and> hd l = CHR ''['' \<and> last l = CHR '']''
      \<and> list_all (\<lambda>c. c \<in> set ''0123456789abcdefABCDEF:.'') (butlast (tl l)))"

section \<open>The connection manager\<close>

text \<open>
  The component keeps the connection in React state (\<^verbatim>\<open>piIP\<close>, \<^verbatim>\<open>isConnected\<close>,
  \<^verbatim>\<open>connectionError\<close>, \<^verbatim>\<open>connectionAttempts\<close>) and in two refs (\<^verbatim>\<open>wsRef\<close>,
  \<^verbatim>\<open>reconnectTimeoutRef\<close>). The WebSocket objects and the timers live in the runtime: the
  model keeps them in two tables, so that a socket that \<^verbatim>\<open>wsRef\<close> no longer points to can
  still deliver its \<^verbatim>\<open>onclose\<close>, and a timer counts as pending until it fires or is cleared.
  Every handler runs to completion before the next one starts.
\<close>

datatype readyState = CONNECTING | OPEN | CLOSING | CLOSED

datatype status_text =
    NoError                 \<comment> \<open>\<^verbatim>\<open>""\<close>\<close>
  | PleaseSetIP             \<comment> \<open>\<^verbatim>\<open>"Please set Raspberry Pi IP address in settings"\<close>\<close>
  | NgrokFailed             \<comment> \<open>\<^verbatim>\<open>"ngrok connection failed. Is Python server running?"\<close>\<close>
  | ServerNotRunning        \<comment> \<open>\<^verbatim>\<open>"Connection failed. Is the server running?"\<close>\<close>
  | ClosedNormally          \<comment> \<open>\<^verbatim>\<open>"Connection closed normally"\<close>\<close>
  | ClosedWithCode nat      \<comment> \<open>\<^verbatim>\<open>`Connection closed (code: ${event.code})`\<close>\<close>
  | FailedAfter5            \<comment> \<open>\<^verbatim>\<open>"Failed after 5 attempts. Check settings and restart server."\<close>\<close>
  | UnableNgrok             \<comment> \<open>\<^verbatim>\<open>'Unable to connect to ngrok server'\<close>\<close>
  | ConnectionFailed        \<comment> \<open>\<^verbatim>\<open>'Connection failed'\<close>\<close>
  | FailedToCreate          \<comment> \<open>\<^verbatim>\<open>"Failed to create connection"\<close>\<close>
  | EmptyIP                 \<comment> \<open>\<^verbatim>\<open>"IP address cannot be empty"\<close>\<close>

record socket =
  sock_url :: string         \<comment> \<open>the argument of \<^verbatim>\<open>new WebSocket(url)\<close>\<close>
  sock_piIP :: string        \<comment> \<open>\<^verbatim>\<open>piIP\<close> of the \<^verbatim>\<open>connectToServer\<close> closure that its \<^verbatim>\<open>onclose\<close> calls\<close>
  sock_cleanIP :: string     \<comment> \<open>\<^verbatim>\<open>cleanIP\<close> as its handlers captured it\<close>
  sock_state :: readyState

datatype callback =
    Reconnect string     \<comment> \<open>the timer of \<^verbatim>\<open>onclose\<close>: clears the ref, calls \<^verbatim>\<open>connectToServer\<close>\<close>
  | SaveConnect string   \<comment> \<open>the 500 ms timer of \<^verbatim>\<open>handleSaveSettings\<close>\<close>

record timer =
  timer_id :: nat
  timer_delay :: nat
  timer_cb :: callback

record link =
  piIP :: string
  isConnected :: bool
  connectionError :: status_text
  connectionAttempts :: nat
  wsRef :: "nat option"                 \<comment> \<open>index into \<open>sockets\<close>\<close>
  reconnectTimeoutRef :: "nat option"   \<comment> \<open>a timer id\<close>
  sockets :: "socket list"
  timers :: "timer list"
  nextTimerId :: nat

definition initial :: link where
  \<comment> \<open>the state at mount; timer ids start at 1, a ref that holds an id is truthy\<close>
  "initial = \<lparr>piIP = [], isConnected = False, connectionError = NoError,
     connectionAttempts = 0, wsRef = None, reconnectTimeoutRef = None, sockets = [],
     timers = [], nextTimerId = 1\<rparr>"

definition setTimeout :: "callback \<Rightarrow> nat \<Rightarrow> link \<Rightarrow> nat \<times> link" where
  "setTimeout cb ms s =
     (nextTimerId s,
      s\<lparr>timers := timers s @ [\<lparr>timer_id = nextTimerId s, timer_delay = ms, timer_cb = cb\<rparr>],
        nextTimerId := nextTimerId s + 1\<rparr>)"

definition clearTimeout :: "nat \<Rightarrow> link \<Rightarrow> link" where
  "clearTimeout i s = s\<lparr>timers := filter (\<lambda>t. timer_id t \<noteq> i) (timers s)\<rparr>"

definition set_readyState :: "nat \<Rightarrow> readyState \<Rightarrow> link \<Rightarrow> link" where
  "set_readyState i st s =
     (if i < length (sockets s)
      then s\<lparr>sockets := (sockets s)[i := (sockets s ! i)\<lparr>sock_state := st\<rparr>]\<rparr>
      else s)"

definition current_socket :: "link \<Rightarrow> socket option" where
  \<comment> \<open>\<^verbatim>\<open>wsRef.current\<close>\<close>
  "current_socket s =
     (case wsRef s of None \<Rightarrow> None
      | Some i \<Rightarrow> if i < length (sockets s) then Some (sockets s ! i) else None)"

definition ws_close :: "nat \<Rightarrow> link \<Rightarrow> link" where
  \<comment> \<open>\<^verbatim>\<open>ws.close()\<close>: a socket that is connecting or open starts closing\<close>
  "ws_close i s =
     (if i < length (sockets s) \<and> sock_state (sockets s ! i) \<in> {CONNECTING, OPEN}
      then set_readyState i CLOSING s else s)"

definition busy :: "link \<Rightarrow> bool" where
  \<comment> \<open>\<^verbatim>\<open>wsRef.current?.readyState === WebSocket.CONNECTING || wsRef.current?.readyState === WebSocket.OPEN\<close>\<close>
  "busy s =
     (case current_socket s of None \<Rightarrow> False
      | Some w \<Rightarrow> sock_state w = CONNECTING \<or> sock_state w = OPEN)"

definition connectToServer :: "bool \<Rightarrow> string \<Rightarrow> link \<Rightarrow> link" where
  \<comment> \<open>\<open>p\<close> is the \<^verbatim>\<open>piIP\<close> of the closure (\<^verbatim>\<open>useCallback(..., [piIP])\<close>); \<open>throws\<close> says
      whether \<^verbatim>\<open>new WebSocket(url)\<close> throws, which the \<^verbatim>\<open>catch\<close> turns into a message\<close>
  "connectToServer throws p s =
     (if trim p = [] then s\<lparr>connectionError := PleaseSetIP\<rparr>
      else if busy s then s
      else if reconnectTimeoutRef s \<noteq> None then s
      else
        let c = connect_cleanIP p;
            cleanIP = (if isNgrok c then strip_port c else c);
            s1 = s\<lparr>connectionAttempts := connectionAttempts s + 1\<rparr>
        in if throws then s1\<lparr>isConnected := False, connectionError := FailedToCreate\<rparr>
           else s1\<lparr>sockets := sockets s @
                       [\<lparr>sock_url = connect_url p, sock_piIP = p, sock_cleanIP = cleanIP,
                         sock_state = CONNECTING\<rparr>],
                    wsRef := Some (length (sockets s))\<rparr>)"

definition ws_onopen :: "link \<Rightarrow> link" where
  "ws_onopen s =
     (let s1 = s\<lparr>isConnected := True, connectionError := NoError, connectionAttempts := 0\<rparr>
      in case reconnectTimeoutRef s1 of None \<Rightarrow> s1
         | Some i \<Rightarrow> (clearTimeout i s1)\<lparr>reconnectTimeoutRef := None\<rparr>)"

definition backoffDelay :: "nat \<Rightarrow> nat" where
  \<comment> \<open>\<^verbatim>\<open>Math.min(3000 + (currentAttempts * 2000), 15000)\<close>\<close>
  "backoffDelay currentAttempts = min (3000 + currentAttempts * 2000) 15000"

definition close_text :: "socket \<Rightarrow> nat \<Rightarrow> status_text" where
  \<comment> \<open>the message that \<^verbatim>\<open>onclose\<close> sets for \<^verbatim>\<open>event.code\<close>\<close>
  "close_text w code =
     (if code = 1006
      then (if includes_str ''.ngrok'' (sock_cleanIP w) then NgrokFailed else ServerNotRunning)
      else if code = 1000 then ClosedNormally
      else ClosedWithCode code)"

definition ws_onclose :: "socket \<Rightarrow> nat \<Rightarrow> link \<Rightarrow> link" where
  \<comment> \<open>\<^verbatim>\<open>ws.onclose\<close> of the socket \<open>w\<close>, with \<^verbatim>\<open>event.code\<close>\<close>
  "ws_onclose w code s =
     (let s1 = s\<lparr>isConnected := False, connectionError := close_text w code\<rparr>;
          currentAttempts = connectionAttempts s1
      in if reconnectTimeoutRef s1 = None \<and> currentAttempts < 5
         then (case setTimeout (Reconnect (sock_piIP w)) (backoffDelay currentAttempts) s1 of
                 (i, s2) \<Rightarrow> s2\<lparr>reconnectTimeoutRef := Some i\<rparr>)
         else if currentAttempts \<ge> 5 then s1\<lparr>connectionError := FailedAfter5\<rparr>
         else s1)"

definition ws_onerror :: "socket \<Rightarrow> link \<Rightarrow> link" where
  "ws_onerror w s =
     s\<lparr>connectionError :=
          (if includes_str ''.ngrok'' (sock_cleanIP w) then UnableNgrok else ConnectionFailed),
       isConnected := False\<rparr>"

definition fire :: "bool \<Rightarrow> timer \<Rightarrow> link \<Rightarrow> link" where
  \<comment> \<open>a pending timer fires: it leaves the timer table and its callback runs\<close>
  "fire throws t s =
     (let s1 = clearTimeout (timer_id t) s
      in case timer_cb t of
           Reconnect p \<Rightarrow> connectToServer throws p (s1\<lparr>reconnectTimeoutRef := None\<rparr>)
         | SaveConnect p \<Rightarrow> connectToServer throws p s1)"

definition release_refs :: "link \<Rightarrow> link" where
  \<comment> \<open>the two \<^verbatim>\<open>if\<close> blocks shared by \<^verbatim>\<open>disconnectFromServer\<close> and the effect's cleanup\<close>
  "release_refs s =
     (let s1 = (case reconnectTimeoutRef s of None \<Rightarrow> s
                | Some i \<Rightarrow> (clearTimeout i s)\<lparr>reconnectTimeoutRef := None\<rparr>)
      in case wsRef s1 of None \<Rightarrow> s1
         | Some i \<Rightarrow> (ws_close i s1)\<lparr>wsRef := None\<rparr>)"

definition disconnectFromServer :: "link \<Rightarrow> link" where
  "disconnectFromServer s = (release_refs s)\<lparr>connectionAttempts := 0\<rparr>"

definition piIP_effect :: "bool \<Rightarrow> link \<Rightarrow> link" where
  \<comment> \<open>\<^verbatim>\<open>useEffect(..., [piIP, connectToServer])\<close> after \<^verbatim>\<open>piIP\<close> changed: the cleanup of the
      previous run, then the body with the new closure\<close>
  "piIP_effect throws s =
     (let s1 = release_refs s
      in if piIP s1 \<noteq> [] \<and> \<not> isConnected s1 \<and> reconnectTimeoutRef s1 = None
         then connectToServer throws (piIP s1) s1 else s1)"

definition handleSaveSettings :: "string \<Rightarrow> link \<Rightarrow> link" where
  \<comment> \<open>the handler alone; the timer's callback is the \<^verbatim>\<open>connectToServer\<close> of the render
      that created the handler, so it holds the \<^verbatim>\<open>piIP\<close> from before the change\<close>
  "handleSaveSettings tempIP s =
     (let trimmedIP = trim tempIP
      in if trimmedIP = [] then s\<lparr>connectionError := EmptyIP\<rparr>
         else
           let s1 = (disconnectFromServer s)\<lparr>piIP := trimmedIP, connectionAttempts := 0\<rparr>
           in snd (setTimeout (SaveConnect (piIP s)) 500 s1))"

datatype event =
    LoadSavedIP string bool    \<comment> \<open>\<^verbatim>\<open>loadSavedIP\<close> found an address; the effect follows\<close>
  | SaveSettings string bool   \<comment> \<open>SAVE & CONNECT with \<^verbatim>\<open>tempIP\<close>; the effect follows when \<^verbatim>\<open>piIP\<close> changed\<close>
  | TimerFire nat bool
  | WsOpen nat
  | WsClose nat nat
  | WsError nat

fun enabled :: "event \<Rightarrow> link \<Rightarrow> bool" where
  "enabled (LoadSavedIP savedIP throws) s = True"
| "enabled (SaveSettings tempIP throws) s = True"
| "enabled (TimerFire i throws) s = (i \<in> set (map timer_id (timers s)))"
| "enabled (WsOpen i) s = (i < length (sockets s) \<and> sock_state (sockets s ! i) = CONNECTING)"
| "enabled (WsClose i code) s = (i < length (sockets s) \<and> sock_state (sockets s ! i) \<noteq> CLOSED)"
| "enabled (WsError i) s = (i < length (sockets s) \<and> sock_state (sockets s ! i) \<noteq> CLOSED)"

fun step :: "event \<Rightarrow> link \<Rightarrow> link" where
  "step (LoadSavedIP savedIP throws) s =
     (if savedIP = [] \<or> savedIP = piIP s then s
      else piIP_effect throws (s\<lparr>piIP := savedIP\<rparr>))"
| "step (SaveSettings tempIP throws) s =
     (let s1 = handleSaveSettings tempIP s
      in if piIP s1 \<noteq> piIP s then piIP_effect throws s1 else s1)"
| "step (TimerFire i throws) s =
     (case find (\<lambda>t. timer_id t = i) (timers s) of None \<Rightarrow> s | Some t \<Rightarrow> fire throws t s)"
| "step (WsOpen i) s = ws_onopen (set_readyState i OPEN s)"
| "step (WsClose i code) s = ws_onclose (sockets s ! i) code (set_readyState i CLOSED s)"
| "step (WsError i) s = ws_onerror (sockets s ! i) s"

inductive reachable :: "link \<Rightarrow> bool" where
  init: "reachable initial"
| step: "reachable s \<Longrightarrow> enabled e s \<Longrightarrow> reachable (step e s)"

definition is_reconnect :: "timer \<Rightarrow> bool" where
  \<comment> \<open>a timer that the failure handler \<^verbatim>\<open>onclose\<close> armed\<close>
  "is_reconnect t = (case timer_cb t of Reconnect p \<Rightarrow> True | SaveConnect p \<Rightarrow> False)"

definition reconnect_timers :: "link \<Rightarrow> timer list" where
  \<comment> \<open>the pending reconnect timers\<close>
  "reconnect_timers s = filter is_reconnect (timers s)"

definition timers_ok :: "link \<Rightarrow> bool" where
  \<comment> \<open>the timer table and \<^verbatim>\<open>reconnectTimeoutRef\<close> agree: timer ids are distinct and older than
      the next id, every pending reconnect timer is the one the ref holds, and the ref holds
      a pending reconnect timer or nothing\<close>
  "timers_ok s =
     (distinct (map timer_id (timers s))
      \<and> (\<forall>t\<in>set (timers s). timer_id t < nextTimerId s)
      \<and> (\<forall>t\<in>set (timers s). is_reconnect t \<longrightarrow> reconnectTimeoutRef s = Some (timer_id t))
      \<and> (\<forall>i. reconnectTimeoutRef s = Some i \<longrightarrow>
            (\<exists>t\<in>set (timers s). timer_id t = i \<and> is_reconnect t)))"

definition fail_round :: "nat \<Rightarrow> link \<Rightarrow> link" where
  \<comment> \<open>one failed attempt: the current socket closes with the given code, and the reconnect
      timer, if that armed one, fires (the socket constructor not throwing)\<close>
  "fail_round code s =
     (case wsRef s of None \<Rightarrow> s
      | Some i \<Rightarrow>
          let s1 = step (WsClose i code) s
          in case reconnectTimeoutRef s1 of None \<Rightarrow> s1
             | Some t \<Rightarrow> step (TimerFire t False) s1)"

definition attempting :: "nat \<Rightarrow> link \<Rightarrow> bool" where
  \<comment> \<open>attempt number \<open>k\<close> since the last reset is in progress: the current socket is
      connecting and no reconnect timer is armed\<close>
  "attempting k s =
     (timers_ok s \<and> reconnectTimeoutRef s = None \<and> connectionAttempts s = k
      \<and> (case current_socket s of None \<Rightarrow> False
          | Some w \<Rightarrow> sock_state w = CONNECTING \<and> trim (sock_piIP w) \<noteq> []))"

definition exhausted :: "link \<Rightarrow> bool" where
  \<comment> \<open>the terminal state after the fifth failure: nothing is scheduled any more\<close>
  "exhausted s =
     (reconnectTimeoutRef s = None \<and> reconnect_timers s = [] \<and> connectionAttempts s = 5
      \<and> \<not> isConnected s \<and> connectionError s = FailedAfter5 \<and> \<not> busy s)"

section \<open>The command codec\<close>

datatype Gear = Gear1 | Gear2 | Gear3   \<comment> \<open>\<^verbatim>\<open>type Gear = 1 | 2 | 3\<close>\<close>

fun gear_number :: "Gear \<Rightarrow> real" where
  "gear_number Gear1 = 1"
| "gear_number Gear2 = 2"
| "gear_number Gear3 = 3"

datatype json = JString string | JNumber real | JBool bool

type_synonym message = "(string \<times> json) list"
  \<comment> \<open>the object given to \<^verbatim>\<open>JSON.stringify\<close>: its keys in order, each with its value\<close>

record controls =
  throttle :: real
  brake :: real
  steering :: real
  gear :: Gear
  honkPressed :: bool
  lightsOn :: bool
  autoMode :: bool

definition socket_open :: "link \<Rightarrow> bool" where
  \<comment> \<open>\<^verbatim>\<open>wsRef.current && wsRef.current.readyState === WebSocket.OPEN\<close>\<close>
  "socket_open l = (case current_socket l of None \<Rightarrow> False | Some w \<Rightarrow> sock_state w = OPEN)"

definition command_message :: "controls \<Rightarrow> string \<Rightarrow> json \<Rightarrow> message" where
  \<comment> \<open>\<^verbatim>\<open>{ type, value, gear, lights: lightsOn, auto: autoMode }\<close>\<close>
  "command_message c type val =
     [(''type'', JString type), (''value'', val), (''gear'', JNumber (gear_number (gear c))),
      (''lights'', JBool (lightsOn c)), (''auto'', JBool (autoMode c))]"

definition sendCommand :: "link \<Rightarrow> controls \<Rightarrow> string \<Rightarrow> json \<Rightarrow> message list" where
  \<comment> \<open>the messages handed to \<^verbatim>\<open>wsRef.current.send\<close>: one, or none when the socket is not open\<close>
  "sendCommand l c type val = (if socket_open l then [command_message c type val] else [])"

definition handleThrottleChange :: "link \<Rightarrow> controls \<Rightarrow> real \<Rightarrow> controls \<times> message list" where
  "handleThrottleChange l c v =
     (c\<lparr>throttle := v\<rparr>,
      if v \<ge> 0
      then sendCommand l c ''throttle_forward'' (JNumber v)
           @ sendCommand l c ''throttle_backward'' (JNumber 0)
      else sendCommand l c ''throttle_forward'' (JNumber 0)
           @ sendCommand l c ''throttle_backward'' (JNumber \<bar>v\<bar>))"

definition handleBrakeChange :: "link \<Rightarrow> controls \<Rightarrow> real \<Rightarrow> controls \<times> message list" where
  "handleBrakeChange l c v = (c\<lparr>brake := v\<rparr>, sendCommand l c ''brake'' (JNumber v))"

definition handleSteeringChange :: "link \<Rightarrow> controls \<Rightarrow> real \<Rightarrow> controls \<times> message list" where
  "handleSteeringChange l c v =
     (c\<lparr>steering := v\<rparr>,
      if v \<ge> 0
      then sendCommand l c ''steering_right'' (JNumber v)
           @ sendCommand l c ''steering_left'' (JNumber 0)
      else sendCommand l c ''steering_right'' (JNumber 0)
           @ sendCommand l c ''steering_left'' (JNumber \<bar>v\<bar>))"

definition handleHonkPress :: "link \<Rightarrow> controls \<Rightarrow> controls \<times> message list" where
  "handleHonkPress l c = (c\<lparr>honkPressed := True\<rparr>, sendCommand l c ''honk'' (JBool True))"

definition handleHonkRelease :: "link \<Rightarrow> controls \<Rightarrow> controls \<times> message list" where
  "handleHonkRelease l c = (c\<lparr>honkPressed := False\<rparr>, sendCommand l c ''honk'' (JBool False))"

definition settings_effect :: "link \<Rightarrow> controls \<Rightarrow> message list" where
  \<comment> \<open>\<^verbatim>\<open>useEffect(..., [gear, lightsOn, autoMode])\<close>\<close>
  "settings_effect l c =
     (if socket_open l
      then [[(''type'', JString ''settings''), (''gear'', JNumber (gear_number (gear c))),
             (''lights'', JBool (lightsOn c)), (''auto'', JBool (autoMode c))]]
      else [])"

datatype input =
    Throttle real | Brake real | Steering real | HonkPress | HonkRelease
  | SetGear Gear | ToggleLights | ToggleAuto

fun handle :: "link \<Rightarrow> controls \<Rightarrow> input \<Rightarrow> controls \<times> message list" where
  \<comment> \<open>one input of the control surface: the new state and the messages it sends; the settings
      effect runs after a render in which gear, lights or auto mode changed\<close>
  "handle l c (Throttle v) = handleThrottleChange l c v"
| "handle l c (Brake v) = handleBrakeChange l c v"
| "handle l c (Steering v) = handleSteeringChange l c v"
| "handle l c HonkPress = handleHonkPress l c"
| "handle l c HonkRelease = handleHonkRelease l c"
| "handle l c (SetGear g) =
     (c\<lparr>gear := g\<rparr>, if g = gear c then [] else settings_effect l (c\<lparr>gear := g\<rparr>))"
| "handle l c ToggleLights =
     (c\<lparr>lightsOn := \<not> lightsOn c\<rparr>, settings_effect l (c\<lparr>lightsOn := \<not> lightsOn c\<rparr>))"
| "handle l c ToggleAuto =
     (c\<lparr>autoMode := \<not> autoMode c\<rparr>, settings_effect l (c\<lparr>autoMode := \<not> autoMode c\<rparr>))"

fun settings_input :: "input \<Rightarrow> bool" where
  \<comment> \<open>the inputs that change gear, lights or auto mode\<close>
  "settings_input (SetGear g) = True"
| "settings_input ToggleLights = True"
| "settings_input ToggleAuto = True"
| "settings_input _ = False"

definition message_kinds :: "string list" where
  "message_kinds = [''throttle_forward'', ''throttle_backward'', ''brake'', ''steering_left'',
     ''steering_right'', ''honk'', ''settings'']"

definition is_kind :: "json option \<Rightarrow> bool" where
  "is_kind j = (case j of Some (JString ty) \<Rightarrow> ty \<in> set message_kinds | _ \<Rightarrow> False)"

definition is_value :: "json option \<Rightarrow> bool" where
  \<comment> \<open>a number or a boolean\<close>
  "is_value j = (case j of Some (JNumber x) \<Rightarrow> True | Some (JBool b) \<Rightarrow> True | _ \<Rightarrow> False)"

definition is_gear :: "json option \<Rightarrow> bool" where
  "is_gear j = (case j of Some (JNumber g) \<Rightarrow> g = 1 \<or> g = 2 \<or> g = 3 | _ \<Rightarrow> False)"

definition is_bool :: "json option \<Rightarrow> bool" where
  "is_bool j = (case j of Some (JBool b) \<Rightarrow> True | _ \<Rightarrow> False)"

definition full_record :: "message \<Rightarrow> bool" where
  \<comment> \<open>a record with all five fields of the wire format\<close>
  "full_record m =
     (map fst m = [''type'', ''value'', ''gear'', ''lights'', ''auto'']
      \<and> is_kind (map_of m ''type'') \<and> is_value (map_of m ''value'')
      \<and> is_gear (map_of m ''gear'') \<and> is_bool (map_of m ''lights'') \<and> is_bool (map_of m ''auto''))"

definition settings_record :: "message \<Rightarrow> bool" where
  \<comment> \<open>the record of a settings message: the four fields it has, and no value\<close>
  "settings_record m =
     (map fst m = [''type'', ''gear'', ''lights'', ''auto'']
      \<and> map_of m ''type'' = Some (JString ''settings'')
      \<and> is_gear (map_of m ''gear'') \<and> is_bool (map_of m ''lights'') \<and> is_bool (map_of m ''auto''))"

section \<open>The camera overlay\<close>

text \<open>
  Numbers are JavaScript doubles; the model takes them as reals. The overlay code adds a
  gesture distance to a coordinate and compares: the comparisons of \<^verbatim>\<open>Math.max\<close> and
  \<^verbatim>\<open>Math.min\<close> are exact, only the sums round.
\<close>

record viewport =
  win_width :: real     \<comment> \<open>\<^verbatim>\<open>width\<close> of \<^verbatim>\<open>Dimensions.get("window")\<close>\<close>
  win_height :: real    \<comment> \<open>\<^verbatim>\<open>height\<close>\<close>

datatype stored = StoredPosition real real | StoredSize real real

record overlay =
  cameraPosition :: "real \<times> real"    \<comment> \<open>\<^verbatim>\<open>{x, y}\<close>\<close>
  cameraSize :: "real \<times> real"        \<comment> \<open>\<^verbatim>\<open>{width, height}\<close>\<close>
  isFullscreen :: bool
  isResizing :: bool
  initialSize :: "real \<times> real"       \<comment> \<open>the ref \<^verbatim>\<open>initialSize.current\<close>\<close>
  pan_offset :: "real \<times> real"        \<comment> \<open>the offset of the animated value \<^verbatim>\<open>pan\<close>\<close>
  pan_value :: "real \<times> real"
  storage_writes :: "(string \<times> stored) list"   \<comment> \<open>the calls of \<^verbatim>\<open>AsyncStorage.setItem\<close>, oldest first\<close>

definition onPositionChange :: "real \<times> real \<Rightarrow> overlay \<Rightarrow> overlay" where
  \<comment> \<open>\<^verbatim>\<open>setCameraPosition(pos); saveCameraPosition(pos)\<close>\<close>
  "onPositionChange pos s =
     s\<lparr>cameraPosition := pos,
       storage_writes := storage_writes s @ [(''camera_position'', StoredPosition (fst pos) (snd pos))]\<rparr>"

definition onSizeChange :: "real \<times> real \<Rightarrow> overlay \<Rightarrow> overlay" where
  \<comment> \<open>\<^verbatim>\<open>setCameraSize(size); saveCameraSize(size)\<close>\<close>
  "onSizeChange sz s =
     s\<lparr>cameraSize := sz,
       storage_writes := storage_writes s @ [(''camera_size'', StoredSize (fst sz) (snd sz))]\<rparr>"

datatype gesture =
    DragGrant | DragMove real real | DragRelease real real
  | ResizeGrant | ResizeMove real real | ResizeRelease
  | ToggleFullscreen

fun gesture_step :: "viewport \<Rightarrow> gesture \<Rightarrow> overlay \<Rightarrow> overlay" where
  \<comment> \<open>the handlers of \<^verbatim>\<open>dragPanResponder\<close> and \<^verbatim>\<open>resizePanResponder\<close>, and \<^verbatim>\<open>handleFullscreen\<close>;
      the two reals are \<^verbatim>\<open>gesture.dx\<close> and \<^verbatim>\<open>gesture.dy\<close>\<close>
  "gesture_step vp DragGrant s = s\<lparr>pan_offset := cameraPosition s, pan_value := (0, 0)\<rparr>"
| "gesture_step vp (DragMove dx dy) s = s\<lparr>pan_value := (dx, dy)\<rparr>"
| "gesture_step vp (DragRelease dx dy) s =
     (let newX = max 0 (min (win_width vp - fst (cameraSize s)) (fst (cameraPosition s) + dx));
          newY = max 0 (min (win_height vp - snd (cameraSize s)) (snd (cameraPosition s) + dy))
      in (onPositionChange (newX, newY) s)\<lparr>pan_offset := (0, 0), pan_value := (newX, newY)\<rparr>)"
| "gesture_step vp ResizeGrant s = s\<lparr>isResizing := True, initialSize := cameraSize s\<rparr>"
| "gesture_step vp (ResizeMove dx dy) s =
     (let newWidth = max 150 (min (win_width vp - 40) (fst (initialSize s) + dx));
          newHeight = max 100 (min (win_height vp - 100) (snd (initialSize s) + dy))
      in onSizeChange (newWidth, newHeight) s)"
| "gesture_step vp ResizeRelease s = s\<lparr>isResizing := False\<rparr>"
| "gesture_step vp ToggleFullscreen s = s\<lparr>isFullscreen := \<not> isFullscreen s\<rparr>"

definition default_overlay :: "viewport \<Rightarrow> overlay" where
  \<comment> \<open>the \<^verbatim>\<open>useState\<close> defaults, before anything is loaded from storage\<close>
  "default_overlay vp =
     \<lparr>cameraPosition = (20, 120),
      cameraSize = (win_width vp * 0.75, (win_width vp * 0.75) * (9 / 16)),
      isFullscreen = False, isResizing = False,
      initialSize = (win_width vp * 0.75, (win_width vp * 0.75) * (9 / 16)),
      pan_offset = (0, 0), pan_value = (20, 120), storage_writes = []\<rparr>"

section \<open>Properties of the string operations\<close>

lemma dropWhile_self: "s = [] \<or> \<not> P (hd s) \<Longrightarrow> dropWhile P s = s"
  by (cases s) auto

lemma trim_id: "s \<noteq> [] \<Longrightarrow> \<not> is_space (hd s) \<Longrightarrow> \<not> is_space (last s) \<Longrightarrow> trim s = s"
  unfolding trim_def by (simp add: dropWhile_self hd_rev)

lemma rev_dropWhile_rev_prefix: "prefix (rev (dropWhile P (rev t))) t"
proof -
  have "t = rev (dropWhile P (rev t)) @ rev (takeWhile P (rev t))"
    by (metis rev_append rev_rev_ident takeWhile_dropWhile_id)
  then show ?thesis by (metis prefixI)
qed

lemma trim_idem: "trim (trim s) = trim s"
proof (cases "trim s = []")
  case True
  have "trim [] = []" by (simp add: trim_def)
  with True show ?thesis by simp
next
  case False
  let ?t = "dropWhile is_space s"
  have p: "prefix (trim s) ?t" unfolding trim_def by (rule rev_dropWhile_rev_prefix)
  with False have "?t \<noteq> []" by (metis prefix_bot.extremum_uniqueI)
  then have "\<not> is_space (hd ?t)" by (simp add: hd_dropWhile)
  moreover from p False have "hd (trim s) = hd ?t" by (auto simp: prefix_def)
  ultimately have h: "\<not> is_space (hd (trim s))" by simp
  have "rev (trim s) = dropWhile is_space (rev ?t)" by (simp add: trim_def)
  moreover from False have "dropWhile is_space (rev ?t) \<noteq> []" unfolding trim_def by simp
  ultimately have "\<not> is_space (hd (rev (trim s)))" by (simp add: hd_dropWhile)
  then have "\<not> is_space (last (trim s))" using False by (simp add: hd_rev)
  with False h show ?thesis by (rule trim_id)
qed

lemma match_classes_take:
  "match_classes ks s \<Longrightarrow> c \<in> set (take (length ks) s) \<Longrightarrow> c \<in> \<Union> (set ` set ks)"
  by (induction ks s rule: match_classes.induct) auto

lemma sublist_drop_fresh:
  assumes "sublist l s" "l \<noteq> []" "hd l \<notin> set (take k s)"
  shows "sublist l (drop k s)"
proof -
  from assms(1) obtain ps ss where s: "s = ps @ l @ ss" by (auto simp: sublist_def)
  have "k \<le> length ps"
  proof (rule ccontr)
    assume "\<not> k \<le> length ps"
    then have "length ps < k" by simp
    moreover have "s ! length ps = hd l" using s assms(2) by (simp add: nth_append hd_conv_nth)
    moreover have "length ps < length s" using s assms(2) by simp
    ultimately have "hd l \<in> set (take k s)"
      by (metis in_set_conv_nth length_take min_less_iff_conj nth_take)
    with assms(3) show False by simp
  qed
  then have "drop k s = drop k ps @ l @ ss" using s by simp
  then show ?thesis by (auto simp: sublist_def)
qed

lemma sublist_dropWhile:
  assumes "sublist l s" "l \<noteq> []" "\<not> P (hd l)"
  shows "sublist l (dropWhile P s)"
proof -
  have "hd l \<notin> set (take (length (takeWhile P s)) s)"
    using assms(3) by (metis set_takeWhileD takeWhile_eq_take)
  from sublist_drop_fresh[OF assms(1,2) this] show ?thesis
    by (simp add: dropWhile_eq_drop)
qed

lemma sublist_rev_dropWhile_rev:
  assumes "sublist l s" "l \<noteq> []" "\<not> P (last l)"
  shows "sublist l (rev (dropWhile P (rev s)))"
proof -
  have "sublist (rev l) (rev s)" using assms(1) by simp
  moreover have "rev l \<noteq> []" using assms(2) by simp
  moreover have "\<not> P (hd (rev l))" using assms(2,3) by (simp add: hd_rev)
  ultimately have "sublist (rev l) (dropWhile P (rev s))" by (rule sublist_dropWhile)
  then have "sublist (rev (rev l)) (rev (dropWhile P (rev s)))" by (subst sublist_rev)
  then show ?thesis by simp
qed

lemma connect_cleanIP_trim: "connect_cleanIP (trim s) = connect_cleanIP s"
  by (simp add: connect_cleanIP_def trim_idem)

lemma camera_cleanIP_trim: "camera_cleanIP (trim s) = connect_cleanIP s"
  by (simp add: connect_cleanIP_def camera_cleanIP_def)

lemma resolve_Inr:
  "trim raw \<noteq> [] \<Longrightarrow>
   resolve raw = Inr \<lparr>controlURL = connect_url (trim raw), mediaBaseURL = cameraUrl (trim raw)\<rparr>"
  by (simp add: resolve_def Let_def)

lemma resolve_Inl_iff: "resolve raw = Inl e \<longleftrightarrow> trim raw = []"
  by (cases e) (simp add: resolve_def Let_def)

lemma connect_url_trim:
  "connect_url (trim raw) =
     (if isNgrok (connect_cleanIP raw) then ''wss://'' @ strip_port (connect_cleanIP raw)
      else if CHR '':'' \<in> set (connect_cleanIP raw) then ''ws://'' @ connect_cleanIP raw
      else ''ws://'' @ connect_cleanIP raw @ '':8765'')"
  by (simp add: connect_url_def connect_cleanIP_trim Let_def)

lemma cameraUrl_trim:
  "cameraUrl (trim raw) =
     (if isNgrok (connect_cleanIP raw) then ''https://'' @ strip_port (connect_cleanIP raw) @ ''/camera''
      else if CHR '':'' \<in> set (connect_cleanIP raw) then ''http://'' @ connect_cleanIP raw @ ''/camera''
      else ''http://'' @ connect_cleanIP raw @ '':8765/camera'')"
  by (simp add: cameraUrl_def camera_cleanIP_trim Let_def)

lemmas eval_defs = resolve_def trim_def is_space_def connect_url_def connect_cleanIP_def
      cameraUrl_def camera_cleanIP_def strip_http_def strip_wss_def strip_slashes_def
      strip_port_def is_digit_def
      re_http_def re_https_def re_ws_def re_wss_def isNgrok_def

section \<open>Endpoint resolution: default ports\<close>

text \<open>
  Claim C1, as amended. A plain address (no tunnel host name) that has no colon once trimmed
  and stripped of its prefix and trailing slashes resolves to the control URL
  \<^verbatim>\<open>ws://{host}:8765\<close> and to the media URL \<^verbatim>\<open>http://{host}:8765/camera\<close>: the camera
  URL is built with the same default port 8765 as the control URL, not with 8080.
\<close>

theorem resolve_plain_default_ports:
  assumes "trim raw \<noteq> []" and "\<not> isNgrok (connect_cleanIP raw)"
    and "CHR '':'' \<notin> set (connect_cleanIP raw)"
  shows "resolve raw =
     Inr \<lparr>controlURL = ''ws://'' @ connect_cleanIP raw @ '':8765'',
          mediaBaseURL = ''http://'' @ connect_cleanIP raw @ '':8765/camera''\<rparr>"
  using assms by (simp add: resolve_Inr connect_url_trim cameraUrl_trim)

theorem resolve_plain_default_ports_witness:
  "trim ''192.168.1.100'' \<noteq> [] \<and> \<not> isNgrok (connect_cleanIP ''192.168.1.100'')
   \<and> CHR '':'' \<notin> set (connect_cleanIP ''192.168.1.100'')
   \<and> resolve ''192.168.1.100'' =
     Inr \<lparr>controlURL = ''ws://192.168.1.100:8765'',
          mediaBaseURL = ''http://192.168.1.100:8765/camera''\<rparr>"
proof -
  have c: "connect_cleanIP ''192.168.1.100'' = ''192.168.1.100''"
    by (simp add: eval_defs)
  have h1: "trim ''192.168.1.100'' \<noteq> []" by (simp add: eval_defs)
  have h2: "\<not> isNgrok (connect_cleanIP ''192.168.1.100'')" by (simp add: c isNgrok_def)
  have h3: "CHR '':'' \<notin> set (connect_cleanIP ''192.168.1.100'')" by (simp add: c)
  from resolve_plain_default_ports [OF h1 h2 h3] h1 h2 h3 show ?thesis by (simp add: c)
qed

text \<open>
  The claim as written, with port 8080 in the media URL, fails at the address of its own
  example.
\<close>

theorem resolve_media_8080_counterexample:
  "resolve ''192.168.1.100'' \<noteq>
     Inr \<lparr>controlURL = ''ws://192.168.1.100:8765'',
          mediaBaseURL = ''http://192.168.1.100:8080/camera''\<rparr>"
  by (simp add: eval_defs)

section \<open>Endpoint resolution: scheme prefixes and trailing slashes\<close>

lemma exact_match_append: "exact_match ks p \<Longrightarrow> match_classes ks (p @ s)"
  by (induction ks p rule: exact_match.induct) auto

lemma exact_match_length: "exact_match ks p \<Longrightarrow> length p = length ks"
  by (induction ks p rule: exact_match.induct) auto

lemma exact_match_hd: "exact_match (k # ks) p \<Longrightarrow> p \<noteq> [] \<and> hd p \<in> set k"
  by (cases p) auto

lemma match_classes_hd: "match_classes (k # ks) s \<Longrightarrow> s \<noteq> [] \<and> hd s \<in> set k"
  by (cases s) auto

lemma match_classes_nth:
  "match_classes ks s \<Longrightarrow> i < length ks \<Longrightarrow> s ! i \<in> set (ks ! i)"
proof (induction ks s arbitrary: i rule: match_classes.induct)
  case (3 k ks c cs)
  then show ?case by (cases i) auto
qed auto

lemma match_slashes:
  assumes "match_classes (body @ [''/'', ''/'']) (h @ replicate n (CHR ''/''))"
    and "\<forall>k\<in>set body. CHR ''/'' \<notin> set k"
  shows "match_classes (body @ [''/'', ''/'']) (h @ ''//'')"
  using assms
proof (induction body arbitrary: h)
  case Nil
  then show ?case
    by (cases h; cases "tl h"; cases n; cases "n - 1") auto
next
  case (Cons k body)
  show ?case
  proof (cases h)
    case Nil
    with Cons.prems show ?thesis by (cases n) auto
  next
    case (Cons a t)
    with Cons.prems Cons.IH [of t] show ?thesis by auto
  qed
qed

lemma has_scheme_slashes:
  assumes "\<not> has_scheme (h @ ''//'')"
  shows "\<not> has_scheme (h @ replicate n (CHR ''/''))"
proof -
  have a: "re_http = [''hH'', ''tT'', ''tT'', ''pP'', '':''] @ [''/'', ''/'']"
    and b: "re_https = [''hH'', ''tT'', ''tT'', ''pP'', ''sS'', '':''] @ [''/'', ''/'']"
    and c: "re_ws = [''wW'', ''sS'', '':''] @ [''/'', ''/'']"
    and d: "re_wss = [''wW'', ''sS'', ''sS'', '':''] @ [''/'', ''/'']"
    by (simp_all add: re_http_def re_https_def re_ws_def re_wss_def)
  have "match_classes re_http (h @ replicate n (CHR ''/'')) \<Longrightarrow> match_classes re_http (h @ ''//'')"
    unfolding a by (rule match_slashes) simp_all
  moreover have "match_classes re_https (h @ replicate n (CHR ''/'')) \<Longrightarrow> match_classes re_https (h @ ''//'')"
    unfolding b by (rule match_slashes) simp_all
  moreover have "match_classes re_ws (h @ replicate n (CHR ''/'')) \<Longrightarrow> match_classes re_ws (h @ ''//'')"
    unfolding c by (rule match_slashes) simp_all
  moreover have "match_classes re_wss (h @ replicate n (CHR ''/'')) \<Longrightarrow> match_classes re_wss (h @ ''//'')"
    unfolding d by (rule match_slashes) simp_all
  ultimately show ?thesis using assms unfolding has_scheme_def by blast
qed

lemma strip_no_scheme: "\<not> has_scheme s \<Longrightarrow> strip_http s = s \<and> strip_wss s = s"
  by (simp add: has_scheme_def strip_http_def strip_wss_def)

lemma strip_scheme_prefix:
  assumes "scheme_prefix p" "\<not> has_scheme s"
  shows "strip_wss (strip_http (p @ s)) = s"
proof -
  from assms(2) have ns: "strip_http s = s" "strip_wss s = s" by (simp_all add: strip_no_scheme)
  from assms(1) consider (http) "exact_match re_http p" | (https) "exact_match re_https p"
    | (ws) "exact_match re_ws p" | (wss) "exact_match re_wss p"
    unfolding scheme_prefix_def by blast
  then show ?thesis
  proof cases
    case http
    then have m: "match_classes re_http (p @ s)" and l: "length p = 7"
      by (simp_all add: exact_match_append exact_match_length [of re_http] re_http_def)
    have "(p @ s) ! 4 = CHR '':''"
      using match_classes_nth [OF m, of 4] by (simp add: re_http_def)
    moreover have "match_classes re_https (p @ s) \<Longrightarrow> (p @ s) ! 4 \<in> set ''sS''"
      using match_classes_nth [of re_https "p @ s" 4] by (simp add: re_https_def)
    ultimately have "\<not> match_classes re_https (p @ s)" by auto
    with m l show ?thesis by (simp add: strip_http_def ns)
  next
    case https
    then have m: "match_classes re_https (p @ s)" and l: "length p = 8"
      by (simp_all add: exact_match_append exact_match_length [of re_https] re_https_def)
    then show ?thesis by (simp add: strip_http_def ns)
  next
    case ws
    then have m: "match_classes re_ws (p @ s)" and l: "length p = 5"
      by (simp_all add: exact_match_append exact_match_length [of re_ws] re_ws_def)
    have h: "hd (p @ s) \<in> set ''wW''"
      using match_classes_hd [of "''wW''" _ "p @ s"] m by (simp add: re_ws_def)
    have "\<not> match_classes re_https (p @ s)" "\<not> match_classes re_http (p @ s)"
      using h match_classes_hd [of "''hH''" _ "p @ s"] by (auto simp: re_https_def re_http_def)
    then have 1: "strip_http (p @ s) = p @ s" by (simp add: strip_http_def)
    have "(p @ s) ! 2 = CHR '':''"
      using match_classes_nth [OF m, of 2] by (simp add: re_ws_def)
    moreover have "match_classes re_wss (p @ s) \<Longrightarrow> (p @ s) ! 2 \<in> set ''sS''"
      using match_classes_nth [of re_wss "p @ s" 2] by (simp add: re_wss_def)
    ultimately have "\<not> match_classes re_wss (p @ s)" by auto
    with m l 1 show ?thesis by (simp add: strip_wss_def)
  next
    case wss
    then have m: "match_classes re_wss (p @ s)" and l: "length p = 6"
      by (simp_all add: exact_match_append exact_match_length [of re_wss] re_wss_def)
    have h: "hd (p @ s) \<in> set ''wW''"
      using match_classes_hd [of "''wW''" _ "p @ s"] m by (simp add: re_wss_def)
    have "\<not> match_classes re_https (p @ s)" "\<not> match_classes re_http (p @ s)"
      using h match_classes_hd [of "''hH''" _ "p @ s"] by (auto simp: re_https_def re_http_def)
    then have 1: "strip_http (p @ s) = p @ s" by (simp add: strip_http_def)
    with m l show ?thesis by (simp add: strip_wss_def)
  qed
qed

lemma scheme_prefix_hd: "scheme_prefix p \<Longrightarrow> p \<noteq> [] \<and> hd p \<in> set ''hHwW''"
  unfolding scheme_prefix_def re_http_def re_https_def re_ws_def re_wss_def
  by (auto dest!: exact_match_hd)

lemma strip_slashes_replicate:
  "strip_slashes (h @ replicate n (CHR ''/'')) = strip_slashes h"
proof -
  have "dropWhile (\<lambda>c. c = CHR ''/'') (replicate n (CHR ''/'') @ xs)
      = dropWhile (\<lambda>c. c = CHR ''/'') xs" for xs
    by (induction n) auto
  then show ?thesis by (simp add: strip_slashes_def)
qed

lemma resolve_by_cleanIP:
  assumes "trim a \<noteq> []" "trim b \<noteq> []" "connect_cleanIP a = connect_cleanIP b"
  shows "resolve a = resolve b"
  using assms by (simp add: resolve_Inr connect_url_trim cameraUrl_trim)

text \<open>
  Claim C7, as amended. Let \<open>h\<close> be a bare address: not empty, with no white space around
  it, and with no scheme of its own. Then \<open>h\<close>, and \<open>h\<close> with one of the prefixes
  \<^verbatim>\<open>http://\<close>, \<^verbatim>\<open>https://\<close>, \<^verbatim>\<open>ws://\<close>, \<^verbatim>\<open>wss://\<close> (in any letter case) in front and any
  number of slashes behind, resolve to the same descriptor: the same control URL and the
  same media URL.
\<close>

theorem resolve_ignores_scheme_and_slashes:
  assumes "bare_address h" and "p = [] \<or> scheme_prefix p"
  shows "resolve (p @ h @ replicate n (CHR ''/'')) = resolve h"
proof -
  let ?s = "h @ replicate n (CHR ''/'')"
  from assms(1) have h: "h \<noteq> []" "\<not> is_space (hd h)" "\<not> is_space (last h)"
    and ns: "\<not> has_scheme (h @ ''//'')"
    by (simp_all add: bare_address_def)
  have nss: "\<not> has_scheme ?s" using ns by (rule has_scheme_slashes)
  have "\<not> has_scheme (h @ replicate 0 (CHR ''/''))" using ns by (rule has_scheme_slashes)
  then have nsh: "\<not> has_scheme h" by simp
  have th: "trim h = h" using h by (rule trim_id)
  have hd_ok: "\<not> is_space (hd (p @ ?s))"
    using assms(2) h scheme_prefix_hd [of p] by (auto simp: is_space_def)
  have last_ok: "\<not> is_space (last (p @ ?s))"
    using h by (cases n) (auto simp: is_space_def)
  have tp: "trim (p @ ?s) = p @ ?s"
    using h hd_ok last_ok by (intro trim_id) auto
  have "strip_wss (strip_http (p @ ?s)) = ?s"
    using assms(2) nss by (auto simp: strip_scheme_prefix strip_no_scheme)
  then have "connect_cleanIP (p @ ?s) = strip_slashes h"
    by (simp add: connect_cleanIP_def tp strip_slashes_replicate)
  moreover have "connect_cleanIP h = strip_slashes h"
    by (simp add: connect_cleanIP_def th strip_no_scheme [OF nsh])
  ultimately show ?thesis
    using tp th h by (intro resolve_by_cleanIP) auto
qed

theorem resolve_ignores_scheme_and_slashes_witness:
  "bare_address ''192.168.1.100'' \<and> scheme_prefix ''HTTPS://''
   \<and> resolve (''HTTPS://'' @ ''192.168.1.100'' @ replicate 2 (CHR ''/'')) = resolve ''192.168.1.100''
   \<and> resolve ''HTTPS://192.168.1.100//'' =
       Inr \<lparr>controlURL = ''ws://192.168.1.100:8765'',
            mediaBaseURL = ''http://192.168.1.100:8765/camera''\<rparr>"
proof -
  have b: "bare_address ''192.168.1.100''"
    by (simp add: bare_address_def has_scheme_def is_space_def
        re_http_def re_https_def re_ws_def re_wss_def)
  have s: "scheme_prefix ''HTTPS://''"
    by (simp add: scheme_prefix_def re_https_def)
  have e: "resolve ''HTTPS://192.168.1.100//'' =
       Inr \<lparr>controlURL = ''ws://192.168.1.100:8765'',
            mediaBaseURL = ''http://192.168.1.100:8765/camera''\<rparr>"
    by (simp add: eval_defs)
  from s have "''HTTPS://'' = [] \<or> scheme_prefix ''HTTPS://''" by (rule disjI2)
  from resolve_ignores_scheme_and_slashes [OF b this, of 2] b s e show ?thesis
    by (intro conjI)
qed

text \<open>
  Without the condition on \<open>h\<close> the claim fails. Each pair below differs only by a leading
  prefix or by trailing slashes and resolves differently: one prefix replacement runs once,
  so a second scheme stays; white space inside the string is no longer at its end; the
  empty address is refused while a lone prefix is not; and slashes after \<^verbatim>\<open>ws:\<close> complete
  a prefix.
\<close>

theorem resolve_ignores_scheme_counterexample:
  "resolve (''ws://'' @ ''http://x'') \<noteq> resolve ''http://x''
   \<and> resolve (''http://'' @ '' x'') \<noteq> resolve '' x''
   \<and> resolve (''x '' @ ''/'') \<noteq> resolve ''x ''
   \<and> resolve (''http://'' @ []) \<noteq> resolve []
   \<and> resolve (''ws:'' @ ''//'') \<noteq> resolve ''ws:''"
  by (simp add: eval_defs)

section \<open>Endpoint resolution: bracketed IPv6 literals\<close>

lemma match_classes_fresh:
  assumes "match_classes ks s" "c \<notin> \<Union> (set ` set ks)" "n = length ks"
  shows "c \<notin> set (take n s)"
  using match_classes_take [OF assms(1), of c] assms(2,3) by auto

lemma sublist_strip_http:
  assumes "sublist l s" "l \<noteq> []" "hd l = CHR ''[''"
  shows "sublist l (strip_http s)"
proof -
  have a: "hd l \<notin> set (take 8 s)" if "match_classes re_https s"
    using that by (rule match_classes_fresh) (simp_all add: re_https_def assms(3))
  have b: "hd l \<notin> set (take 7 s)" if "match_classes re_http s"
    using that by (rule match_classes_fresh) (simp_all add: re_http_def assms(3))
  show ?thesis unfolding strip_http_def
    using a b assms(1,2) by (auto intro: sublist_drop_fresh)
qed

lemma sublist_strip_wss:
  assumes "sublist l s" "l \<noteq> []" "hd l = CHR ''[''"
  shows "sublist l (strip_wss s)"
proof -
  have a: "hd l \<notin> set (take 6 s)" if "match_classes re_wss s"
    using that by (rule match_classes_fresh) (simp_all add: re_wss_def assms(3))
  have b: "hd l \<notin> set (take 5 s)" if "match_classes re_ws s"
    using that by (rule match_classes_fresh) (simp_all add: re_ws_def assms(3))
  show ?thesis unfolding strip_wss_def
    using a b assms(1,2) by (auto intro: sublist_drop_fresh)
qed

lemma sublist_trim:
  assumes "sublist l s" "l \<noteq> []" "\<not> is_space (hd l)" "\<not> is_space (last l)"
  shows "sublist l (trim s)"
  unfolding trim_def using assms by (intro sublist_rev_dropWhile_rev sublist_dropWhile)

lemma sublist_strip_slashes:
  assumes "sublist l s" "l \<noteq> []" "last l = CHR '']''"
  shows "sublist l (strip_slashes s)"
  unfolding strip_slashes_def using assms by (intro sublist_rev_dropWhile_rev) auto

lemma sublist_strip_port:
  assumes "sublist l s" "l \<noteq> []" "last l = CHR '']''"
  shows "sublist l (strip_port s)"
proof (cases "strip_port s = s")
  case True
  with assms(1) show ?thesis by simp
next
  case False
  let ?rest = "dropWhile is_digit (rev s)"
  from False have r: "?rest \<noteq> []" "hd ?rest = CHR '':''" and sp: "strip_port s = rev (tl ?rest)"
    by (auto simp: strip_port_def Let_def split: if_splits)
  have nd: "\<not> is_digit (last l)" using assms(3) by (simp add: is_digit_def)
  have "sublist (rev l) (rev s)" using assms(1) by simp
  then have "sublist (rev l) ?rest"
    using assms(2) nd by (intro sublist_dropWhile) (auto simp: hd_rev)
  moreover have "hd (rev l) \<notin> set (take 1 ?rest)"
    using r assms(2,3) by (cases ?rest) (auto simp: hd_rev)
  ultimately have "sublist (rev l) (drop 1 ?rest)"
    using assms(2) by (intro sublist_drop_fresh) auto
  then have "sublist (rev (rev l)) (rev (tl ?rest))"
    by (subst sublist_rev) (simp add: drop_Suc)
  then show ?thesis by (simp add: sp)
qed

lemma sublist_wrap: "sublist l x \<Longrightarrow> sublist l (a @ x @ b)"
  by (auto simp: sublist_def) (metis append.assoc)

lemma ipv6_literal_ends:
  "ipv6_literal l \<Longrightarrow> l \<noteq> [] \<and> hd l = CHR ''['' \<and> last l = CHR '']''"
  by (auto simp: ipv6_literal_def)

lemma sublist_connect_cleanIP:
  assumes "ipv6_literal l" "sublist l s"
  shows "sublist l (connect_cleanIP s)"
proof -
  from assms(1) have e: "l \<noteq> []" "hd l = CHR ''[''" "last l = CHR '']''"
    by (simp_all add: ipv6_literal_ends)
  have "sublist l (trim s)" using assms(2) e by (intro sublist_trim) (auto simp: is_space_def)
  then show ?thesis unfolding connect_cleanIP_def using e
    by (intro sublist_strip_slashes sublist_strip_wss sublist_strip_http)
qed

text \<open>
  Claim C9, as amended. Whatever stands before and after it, a bracketed IPv6 literal in
  the raw string is found again, brackets included, in both resulting URLs. Brackets are
  never checked: resolution fails with \<open>InvalidEndpoint\<close> exactly when the raw string is
  blank, and every other string, well-formed or not, yields a descriptor.
\<close>

theorem resolve_keeps_ipv6_literal:
  assumes "ipv6_literal l"
  shows "(\<exists>d. resolve (pre @ l @ post) = Inr d \<and> sublist l (controlURL d)
            \<and> sublist l (mediaBaseURL d))
       \<and> (resolve raw = Inl InvalidEndpoint \<longleftrightarrow> trim raw = [])"
proof -
  let ?raw = "pre @ l @ post"
  let ?c = "connect_cleanIP ?raw"
  from assms have e: "l \<noteq> []" "hd l = CHR ''[''" "last l = CHR '']''"
    by (simp_all add: ipv6_literal_ends)
  have s: "sublist l ?raw" by (auto simp: sublist_def)
  then have "sublist l (trim ?raw)" using e by (intro sublist_trim) (auto simp: is_space_def)
  with e(1) have ne: "trim ?raw \<noteq> []" by auto
  have c: "sublist l ?c" using assms s by (rule sublist_connect_cleanIP)
  then have p: "sublist l (strip_port ?c)" using e by (intro sublist_strip_port)
  have "connect_url (trim ?raw) = ''wss://'' @ strip_port ?c @ []
      \<or> connect_url (trim ?raw) = ''ws://'' @ ?c @ []
      \<or> connect_url (trim ?raw) = ''ws://'' @ ?c @ '':8765''"
    by (simp add: connect_url_trim)
  then have "sublist l (connect_url (trim ?raw))"
    using c p by (metis sublist_wrap)
  moreover have "cameraUrl (trim ?raw) = ''https://'' @ strip_port ?c @ ''/camera''
      \<or> cameraUrl (trim ?raw) = ''http://'' @ ?c @ ''/camera''
      \<or> cameraUrl (trim ?raw) = ''http://'' @ ?c @ '':8765/camera''"
    by (simp add: cameraUrl_trim)
  then have "sublist l (cameraUrl (trim ?raw))"
    using c p by (metis sublist_wrap)
  ultimately show ?thesis using ne by (simp add: resolve_Inr resolve_Inl_iff)
qed

theorem resolve_keeps_ipv6_literal_witness:
  "ipv6_literal ''[2001:db8::1]''
   \<and> (\<exists>d. resolve (''ws://'' @ ''[2001:db8::1]'' @ '':8765/'') = Inr d
         \<and> sublist ''[2001:db8::1]'' (controlURL d) \<and> sublist ''[2001:db8::1]'' (mediaBaseURL d))
   \<and> (resolve ''  '' = Inl InvalidEndpoint \<longleftrightarrow> trim ''  '' = [])
   \<and> resolve ''ws://[2001:db8::1]:8765/'' =
       Inr \<lparr>controlURL = ''ws://[2001:db8::1]:8765'',
            mediaBaseURL = ''http://[2001:db8::1]:8765/camera''\<rparr>"
proof -
  have l: "ipv6_literal ''[2001:db8::1]''"
    by (simp add: ipv6_literal_def)
  have e: "resolve ''ws://[2001:db8::1]:8765/'' =
       Inr \<lparr>controlURL = ''ws://[2001:db8::1]:8765'',
            mediaBaseURL = ''http://[2001:db8::1]:8765/camera''\<rparr>"
    by (simp add: eval_defs)
  from resolve_keeps_ipv6_literal [OF l, of "''ws://''" "'':8765/''" "''  ''"] l e
  show ?thesis by (intro conjI) blast+
qed

text \<open>
  The claim as written fails on a string whose bracket is never closed: resolution does
  not fail, it builds both URLs around the string as it is.
\<close>

theorem resolve_malformed_brackets_counterexample:
  "resolve ''[2001:db8::1'' \<noteq> Inl InvalidEndpoint
   \<and> resolve ''[2001:db8::1'' =
       Inr \<lparr>controlURL = ''ws://[2001:db8::1'',
            mediaBaseURL = ''http://[2001:db8::1/camera''\<rparr>"
  by (simp add: eval_defs)

section \<open>Evaluating the connection manager\<close>

lemmas link_defs = initial_def piIP_effect_def release_refs_def connectToServer_def
  busy_def current_socket_def set_readyState_def ws_onopen_def ws_onclose_def close_text_def
  ws_onerror_def
  ws_close_def fire_def setTimeout_def clearTimeout_def disconnectFromServer_def
  handleSaveSettings_def backoffDelay_def Let_def

lemma ex_open:
  "step (WsOpen 0) (step (LoadSavedIP ''192.168.1.100'' False) initial) =
   \<lparr>piIP = ''192.168.1.100'', isConnected = True, connectionError = NoError,
    connectionAttempts = 0, wsRef = Some 0, reconnectTimeoutRef = None,
    sockets =
      [\<lparr>sock_url = ''ws://192.168.1.100:8765'',
          sock_piIP = ''192.168.1.100'', sock_cleanIP = ''192.168.1.100'',
          sock_state = OPEN\<rparr>],
    timers = [], nextTimerId = 1\<rparr>"
  by (simp add: link_defs eval_defs)

section \<open>The command codec: both halves of the throttle axis\<close>

text \<open>
  Claim C5. For every throttle value \<open>v\<close> between \<open>-100\<close> and \<open>100\<close>, a throttle change over
  an open socket sends exactly two messages, forward first: for \<open>v \<ge> 0\<close> they carry
  \<^verbatim>\<open>throttle_forward\<close> = \<open>v\<close> and \<^verbatim>\<open>throttle_backward\<close> = 0, for \<open>v < 0\<close> they carry
  \<^verbatim>\<open>throttle_forward\<close> = 0 and \<^verbatim>\<open>throttle_backward\<close> = \<open>-v\<close>, the magnitude; at \<open>v = 0\<close> both
  are 0. When the socket is not open neither half is sent, so one half never travels
  without the other.
\<close>

theorem throttle_sends_both_halves:
  assumes "- 100 \<le> v" and "v \<le> 100"
  shows "snd (handleThrottleChange l c v) =
     (if \<not> socket_open l then []
      else if v \<ge> 0
      then [command_message c ''throttle_forward'' (JNumber v),
            command_message c ''throttle_backward'' (JNumber 0)]
      else [command_message c ''throttle_forward'' (JNumber 0),
            command_message c ''throttle_backward'' (JNumber (- v))])"
  by (simp add: handleThrottleChange_def sendCommand_def)

theorem throttle_sends_both_halves_witness:
  "- 100 \<le> (42 :: real) \<and> (42 :: real) \<le> 100 \<and> - 100 \<le> (- 42 :: real) \<and> (- 42 :: real) \<le> 100
   \<and> - 100 \<le> (0 :: real) \<and> (0 :: real) \<le> 100
   \<and> snd (handleThrottleChange
        (step (WsOpen 0) (step (LoadSavedIP ''192.168.1.100'' False) initial))
        \<lparr>throttle = 0, brake = 0, steering = 0, gear = Gear2, honkPressed = False,
          lightsOn = True, autoMode = False\<rparr> 42) =
       [[(''type'', JString ''throttle_forward''), (''value'', JNumber 42),
         (''gear'', JNumber 2), (''lights'', JBool True), (''auto'', JBool False)],
        [(''type'', JString ''throttle_backward''), (''value'', JNumber 0),
         (''gear'', JNumber 2), (''lights'', JBool True), (''auto'', JBool False)]]
   \<and> snd (handleThrottleChange
        (step (WsOpen 0) (step (LoadSavedIP ''192.168.1.100'' False) initial))
        \<lparr>throttle = 0, brake = 0, steering = 0, gear = Gear2, honkPressed = False,
          lightsOn = True, autoMode = False\<rparr> (- 42)) =
       [[(''type'', JString ''throttle_forward''), (''value'', JNumber 0),
         (''gear'', JNumber 2), (''lights'', JBool True), (''auto'', JBool False)],
        [(''type'', JString ''throttle_backward''), (''value'', JNumber 42),
         (''gear'', JNumber 2), (''lights'', JBool True), (''auto'', JBool False)]]
   \<and> snd (handleThrottleChange
        (step (WsOpen 0) (step (LoadSavedIP ''192.168.1.100'' False) initial))
        \<lparr>throttle = 42, brake = 0, steering = 0, gear = Gear2, honkPressed = False,
          lightsOn = True, autoMode = False\<rparr> 0) =
       [[(''type'', JString ''throttle_forward''), (''value'', JNumber 0),
         (''gear'', JNumber 2), (''lights'', JBool True), (''auto'', JBool False)],
        [(''type'', JString ''throttle_backward''), (''value'', JNumber 0),
         (''gear'', JNumber 2), (''lights'', JBool True), (''auto'', JBool False)]]
   \<and> snd (handleThrottleChange initial
        \<lparr>throttle = 0, brake = 0, steering = 0, gear = Gear2, honkPressed = False,
          lightsOn = True, autoMode = False\<rparr> 42) = []"
proof -
  have o: "socket_open (step (WsOpen 0) (step (LoadSavedIP ''192.168.1.100'' False) initial))"
    unfolding ex_open by (simp add: socket_open_def current_socket_def)
  have n: "\<not> socket_open initial"
    by (simp add: socket_open_def current_socket_def initial_def)
  have a: "- 100 \<le> (42 :: real)" "(42 :: real) \<le> 100" by simp_all
  have b: "- 100 \<le> (- 42 :: real)" "(- 42 :: real) \<le> 100" by simp_all
  have z: "- 100 \<le> (0 :: real)" "(0 :: real) \<le> 100" by simp_all
  show ?thesis
    using throttle_sends_both_halves [OF a] throttle_sends_both_halves [OF b]
      throttle_sends_both_halves [OF z] o n
    by (simp add: command_message_def)
qed

section \<open>The command codec: the fields of a wire message\<close>

lemma full_record_command:
  "ty \<in> set message_kinds \<Longrightarrow> is_value (Some v) \<Longrightarrow> full_record (command_message c ty v)"
  by (cases "gear c") (simp_all add: full_record_def command_message_def is_kind_def is_gear_def is_bool_def)

lemma settings_record_effect:
  "m \<in> set (settings_effect l c) \<Longrightarrow> settings_record m \<and> map_of m ''value'' = None"
  by (cases "gear c") (auto simp: settings_effect_def settings_record_def is_gear_def is_bool_def)

lemma sendCommand_cases:
  "m \<in> set (sendCommand l c ty v) \<Longrightarrow> m = command_message c ty v"
  by (simp add: sendCommand_def split: if_splits)

text \<open>
  Claim C6, as amended. Every message that a throttle, brake, steering or honk input sends
  is a record with all five fields: \<^verbatim>\<open>type\<close> (one of the message kinds), \<^verbatim>\<open>value\<close> (a
  number or a boolean), \<^verbatim>\<open>gear\<close> (1, 2 or 3), \<^verbatim>\<open>lights\<close> and \<^verbatim>\<open>auto\<close> (booleans). The
  settings message, sent when gear, lights or auto mode changes, has the four fields
  \<^verbatim>\<open>type\<close> = \<^verbatim>\<open>settings\<close>, \<^verbatim>\<open>gear\<close>, \<^verbatim>\<open>lights\<close>, \<^verbatim>\<open>auto\<close>, and no \<^verbatim>\<open>value\<close> field.
\<close>

theorem wire_message_fields:
  assumes "m \<in> set (snd (handle l c i))"
  shows "if settings_input i then settings_record m \<and> map_of m ''value'' = None
         else full_record m"
proof (cases i)
  case (Throttle v)
  with assms show ?thesis
    by (auto simp: handleThrottleChange_def message_kinds_def is_value_def
        dest!: sendCommand_cases intro!: full_record_command split: if_splits)
next
  case (Brake v)
  with assms show ?thesis
    by (auto simp: handleBrakeChange_def message_kinds_def is_value_def
        dest!: sendCommand_cases intro!: full_record_command)
next
  case (Steering v)
  with assms show ?thesis
    by (auto simp: handleSteeringChange_def message_kinds_def is_value_def
        dest!: sendCommand_cases intro!: full_record_command split: if_splits)
next
  case HonkPress
  with assms show ?thesis
    by (auto simp: handleHonkPress_def message_kinds_def is_value_def
        dest!: sendCommand_cases intro!: full_record_command)
next
  case HonkRelease
  with assms show ?thesis
    by (auto simp: handleHonkRelease_def message_kinds_def is_value_def
        dest!: sendCommand_cases intro!: full_record_command)
next
  case (SetGear g)
  with assms show ?thesis by (auto dest: settings_record_effect split: if_splits)
next
  case ToggleLights
  with assms show ?thesis by (auto dest: settings_record_effect)
next
  case ToggleAuto
  with assms show ?thesis by (auto dest: settings_record_effect)
qed

theorem wire_message_fields_witness:
  "[(''type'', JString ''brake''), (''value'', JNumber 30), (''gear'', JNumber 1),
    (''lights'', JBool False), (''auto'', JBool False)]
     \<in> set (snd (handle
          (step (WsOpen 0) (step (LoadSavedIP ''192.168.1.100'' False) initial))
          \<lparr>throttle = 0, brake = 0, steering = 0, gear = Gear1, honkPressed = False,
            lightsOn = False, autoMode = False\<rparr> (Brake 30)))
   \<and> full_record [(''type'', JString ''brake''), (''value'', JNumber 30), (''gear'', JNumber 1),
        (''lights'', JBool False), (''auto'', JBool False)]
   \<and> [(''type'', JString ''settings''), (''gear'', JNumber 1), (''lights'', JBool True),
       (''auto'', JBool False)]
     \<in> set (snd (handle
          (step (WsOpen 0) (step (LoadSavedIP ''192.168.1.100'' False) initial))
          \<lparr>throttle = 0, brake = 0, steering = 0, gear = Gear1, honkPressed = False,
            lightsOn = False, autoMode = False\<rparr> ToggleLights))
   \<and> settings_record [(''type'', JString ''settings''), (''gear'', JNumber 1),
        (''lights'', JBool True), (''auto'', JBool False)]"
proof -
  have o: "socket_open (step (WsOpen 0) (step (LoadSavedIP ''192.168.1.100'' False) initial))"
    unfolding ex_open by (simp add: socket_open_def current_socket_def)
  have 1: "[(''type'', JString ''brake''), (''value'', JNumber 30), (''gear'', JNumber 1),
    (''lights'', JBool False), (''auto'', JBool False)]
     \<in> set (snd (handle
          (step (WsOpen 0) (step (LoadSavedIP ''192.168.1.100'' False) initial))
          \<lparr>throttle = 0, brake = 0, steering = 0, gear = Gear1, honkPressed = False,
            lightsOn = False, autoMode = False\<rparr> (Brake 30)))"
    using o by (simp add: handleBrakeChange_def sendCommand_def command_message_def)
  have 2: "[(''type'', JString ''settings''), (''gear'', JNumber 1), (''lights'', JBool True),
       (''auto'', JBool False)]
     \<in> set (snd (handle
          (step (WsOpen 0) (step (LoadSavedIP ''192.168.1.100'' False) initial))
          \<lparr>throttle = 0, brake = 0, steering = 0, gear = Gear1, honkPressed = False,
            lightsOn = False, autoMode = False\<rparr> ToggleLights))"
    using o by (simp add: settings_effect_def)
  show ?thesis
    using wire_message_fields [OF 1] wire_message_fields [OF 2] 1 2 by simp
qed

text \<open>
  The claim as written fails for the settings message: switching the lights on sends a
  record that has no \<^verbatim>\<open>value\<close> field.
\<close>

theorem settings_message_counterexample:
  "snd (handle
     (step (WsOpen 0) (step (LoadSavedIP ''192.168.1.100'' False) initial))
     \<lparr>throttle = 0, brake = 0, steering = 0, gear = Gear1, honkPressed = False,
       lightsOn = False, autoMode = False\<rparr> ToggleLights) =
     [[(''type'', JString ''settings''), (''gear'', JNumber 1), (''lights'', JBool True),
       (''auto'', JBool False)]]
   \<and> map_of [(''type'', JString ''settings''), (''gear'', JNumber 1), (''lights'', JBool True),
       (''auto'', JBool False)] ''value'' = None
   \<and> \<not> full_record [(''type'', JString ''settings''), (''gear'', JNumber 1),
       (''lights'', JBool True), (''auto'', JBool False)]"
proof -
  have o: "socket_open (step (WsOpen 0) (step (LoadSavedIP ''192.168.1.100'' False) initial))"
    unfolding ex_open by (simp add: socket_open_def current_socket_def)
  then show ?thesis by (simp add: settings_effect_def full_record_def)
qed

section \<open>The camera overlay: what is written to storage\<close>

text \<open>
  Claim C8, as amended. A gesture event writes to storage in exactly two cases: the release
  of a drag writes the new position, and every move event of a resize writes the new size.
  The move events of a drag, the start of either gesture, the release of a resize and the
  fullscreen toggle write nothing.
\<close>

theorem persistence_points:
  "storage_writes (gesture_step vp g s) =
     storage_writes s @
     (case g of
        DragRelease dx dy \<Rightarrow>
          [(''camera_position'',
            StoredPosition (fst (cameraPosition (gesture_step vp g s)))
              (snd (cameraPosition (gesture_step vp g s))))]
      | ResizeMove dx dy \<Rightarrow>
          [(''camera_size'',
            StoredSize (fst (cameraSize (gesture_step vp g s)))
              (snd (cameraSize (gesture_step vp g s))))]
      | _ \<Rightarrow> [])"
  by (cases g) (simp_all add: onPositionChange_def onSizeChange_def Let_def)

theorem persistence_points_witness:
  "storage_writes (gesture_step \<lparr>win_width = 400, win_height = 800\<rparr> (DragMove 1000 1000)
      (default_overlay \<lparr>win_width = 400, win_height = 800\<rparr>)) = []
   \<and> storage_writes (gesture_step \<lparr>win_width = 400, win_height = 800\<rparr> (DragRelease 1000 1000)
      (default_overlay \<lparr>win_width = 400, win_height = 800\<rparr>)) =
       [(''camera_position'', StoredPosition 100 631.25)]
   \<and> storage_writes (gesture_step \<lparr>win_width = 400, win_height = 800\<rparr> (ResizeMove (- 1000) (- 1000))
      (default_overlay \<lparr>win_width = 400, win_height = 800\<rparr>)) =
       [(''camera_size'', StoredSize 150 100)]
   \<and> storage_writes (gesture_step \<lparr>win_width = 400, win_height = 800\<rparr> ResizeRelease
      (default_overlay \<lparr>win_width = 400, win_height = 800\<rparr>)) = []"
  using persistence_points [of "\<lparr>win_width = 400, win_height = 800\<rparr>" "DragMove 1000 1000"
      "default_overlay \<lparr>win_width = 400, win_height = 800\<rparr>"]
    persistence_points [of "\<lparr>win_width = 400, win_height = 800\<rparr>" "DragRelease 1000 1000"
      "default_overlay \<lparr>win_width = 400, win_height = 800\<rparr>"]
    persistence_points [of "\<lparr>win_width = 400, win_height = 800\<rparr>" "ResizeMove (- 1000) (- 1000)"
      "default_overlay \<lparr>win_width = 400, win_height = 800\<rparr>"]
    persistence_points [of "\<lparr>win_width = 400, win_height = 800\<rparr>" ResizeRelease
      "default_overlay \<lparr>win_width = 400, win_height = 800\<rparr>"]
  by (simp add: default_overlay_def onPositionChange_def onSizeChange_def Let_def)

text \<open>
  The claim as written fails for the resize gesture: an intermediate move event writes the
  size, and the release that ends the gesture writes nothing.
\<close>

theorem resize_persistence_counterexample:
  "storage_writes (gesture_step \<lparr>win_width = 400, win_height = 800\<rparr> (ResizeMove 10 10)
      (gesture_step \<lparr>win_width = 400, win_height = 800\<rparr> ResizeGrant
        (default_overlay \<lparr>win_width = 400, win_height = 800\<rparr>))) =
     [(''camera_size'', StoredSize 310 178.75)]
   \<and> storage_writes (gesture_step \<lparr>win_width = 400, win_height = 800\<rparr> ResizeRelease
      (gesture_step \<lparr>win_width = 400, win_height = 800\<rparr> (ResizeMove 10 10)
        (gesture_step \<lparr>win_width = 400, win_height = 800\<rparr> ResizeGrant
          (default_overlay \<lparr>win_width = 400, win_height = 800\<rparr>)))) =
     storage_writes (gesture_step \<lparr>win_width = 400, win_height = 800\<rparr> (ResizeMove 10 10)
      (gesture_step \<lparr>win_width = 400, win_height = 800\<rparr> ResizeGrant
        (default_overlay \<lparr>win_width = 400, win_height = 800\<rparr>)))"
  by (simp add: default_overlay_def onSizeChange_def Let_def)

section \<open>The camera overlay: what a drag and a resize change\<close>

text \<open>
  Claim C10, as amended. The release of a drag leaves width and height unchanged; on each
  axis where the overlay fits the viewport the new coordinate lies in
  \<open>[0, viewport - size]\<close>, and where the overlay is larger than the viewport the new
  coordinate is 0. A resize move leaves the position unchanged; the new width lies in
  \<open>[150, viewportWidth - 40]\<close> when the viewport is at least 190 wide and is 150 otherwise,
  and the new height lies in \<open>[100, viewportHeight - 100]\<close> when the viewport is at least 200
  high and is 100 otherwise.
\<close>

theorem drag_and_resize_frame:
  fixes vp :: viewport and s :: overlay and dx dy :: real
  defines "d \<equiv> gesture_step vp (DragRelease dx dy) s"
    and "r \<equiv> gesture_step vp (ResizeMove dx dy) s"
  shows "cameraSize d = cameraSize s
     \<and> (fst (cameraSize s) \<le> win_width vp \<longrightarrow>
          0 \<le> fst (cameraPosition d) \<and> fst (cameraPosition d) \<le> win_width vp - fst (cameraSize s))
     \<and> (snd (cameraSize s) \<le> win_height vp \<longrightarrow>
          0 \<le> snd (cameraPosition d) \<and> snd (cameraPosition d) \<le> win_height vp - snd (cameraSize s))
     \<and> (win_width vp < fst (cameraSize s) \<longrightarrow> fst (cameraPosition d) = 0)
     \<and> (win_height vp < snd (cameraSize s) \<longrightarrow> snd (cameraPosition d) = 0)
     \<and> cameraPosition r = cameraPosition s
     \<and> (190 \<le> win_width vp \<longrightarrow>
          150 \<le> fst (cameraSize r) \<and> fst (cameraSize r) \<le> win_width vp - 40)
     \<and> (200 \<le> win_height vp \<longrightarrow>
          100 \<le> snd (cameraSize r) \<and> snd (cameraSize r) \<le> win_height vp - 100)
     \<and> (win_width vp < 190 \<longrightarrow> fst (cameraSize r) = 150)
     \<and> (win_height vp < 200 \<longrightarrow> snd (cameraSize r) = 100)"
  by (auto simp: d_def r_def onPositionChange_def onSizeChange_def Let_def)

theorem drag_and_resize_frame_witness:
  "cameraSize (gesture_step \<lparr>win_width = 400, win_height = 800\<rparr> (DragRelease 1000 1000)
      (default_overlay \<lparr>win_width = 400, win_height = 800\<rparr>)) = (300, 168.75)
   \<and> cameraPosition (gesture_step \<lparr>win_width = 400, win_height = 800\<rparr> (DragRelease 1000 1000)
      (default_overlay \<lparr>win_width = 400, win_height = 800\<rparr>)) = (100, 631.25)
   \<and> cameraPosition (gesture_step \<lparr>win_width = 400, win_height = 800\<rparr> (ResizeMove 1000 1000)
      (default_overlay \<lparr>win_width = 400, win_height = 800\<rparr>)) = (20, 120)
   \<and> cameraSize (gesture_step \<lparr>win_width = 400, win_height = 800\<rparr> (ResizeMove 1000 1000)
      (default_overlay \<lparr>win_width = 400, win_height = 800\<rparr>)) = (360, 700)"
  using drag_and_resize_frame [of "\<lparr>win_width = 400, win_height = 800\<rparr>" 1000 1000
      "default_overlay \<lparr>win_width = 400, win_height = 800\<rparr>"]
  by (simp add: default_overlay_def onPositionChange_def onSizeChange_def Let_def)

text \<open>
  The claim as written fails when the overlay is larger than the viewport. In a window of
  1000 by 400 the default overlay is 421.875 high: a released drag puts it at \<open>y = 0\<close>,
  which is above the upper end \<open>-21.875\<close> of the claimed interval.
\<close>

theorem drag_clamp_counterexample:
  "snd (cameraPosition (gesture_step \<lparr>win_width = 1000, win_height = 400\<rparr> (DragRelease 10 10)
      (default_overlay \<lparr>win_width = 1000, win_height = 400\<rparr>))) = 0
   \<and> win_height \<lparr>win_width = 1000, win_height = 400\<rparr>
       - snd (cameraSize (default_overlay \<lparr>win_width = 1000, win_height = 400\<rparr>)) = - 21.875
   \<and> \<not> snd (cameraPosition (gesture_step \<lparr>win_width = 1000, win_height = 400\<rparr> (DragRelease 10 10)
      (default_overlay \<lparr>win_width = 1000, win_height = 400\<rparr>)))
       \<le> win_height \<lparr>win_width = 1000, win_height = 400\<rparr>
         - snd (cameraSize (default_overlay \<lparr>win_width = 1000, win_height = 400\<rparr>))"
  by (simp add: default_overlay_def onPositionChange_def Let_def)

section \<open>The connection manager: the timer table and the ref agree\<close>

lemma connectToServer_timers [simp]:
  "timers (connectToServer th p s) = timers s"
  "reconnectTimeoutRef (connectToServer th p s) = reconnectTimeoutRef s"
  "nextTimerId (connectToServer th p s) = nextTimerId s"
  by (simp_all add: connectToServer_def Let_def)

lemma set_readyState_timers [simp]:
  "timers (set_readyState i st s) = timers s"
  "reconnectTimeoutRef (set_readyState i st s) = reconnectTimeoutRef s"
  "nextTimerId (set_readyState i st s) = nextTimerId s"
  "connectionAttempts (set_readyState i st s) = connectionAttempts s"
  "wsRef (set_readyState i st s) = wsRef s"
  "piIP (set_readyState i st s) = piIP s"
  "isConnected (set_readyState i st s) = isConnected s"
  by (simp_all add: set_readyState_def)

lemma ws_close_timers [simp]:
  "timers (ws_close i s) = timers s"
  "reconnectTimeoutRef (ws_close i s) = reconnectTimeoutRef s"
  "nextTimerId (ws_close i s) = nextTimerId s"
  "isConnected (ws_close i s) = isConnected s"
  "piIP (ws_close i s) = piIP s"
  by (simp_all add: ws_close_def)

lemma ws_onerror_timers [simp]:
  "timers (ws_onerror w s) = timers s"
  "reconnectTimeoutRef (ws_onerror w s) = reconnectTimeoutRef s"
  "nextTimerId (ws_onerror w s) = nextTimerId s"
  by (simp_all add: ws_onerror_def)

lemma timers_ok_cong:
  assumes "timers s' = timers s" "reconnectTimeoutRef s' = reconnectTimeoutRef s"
    "nextTimerId s' = nextTimerId s"
  shows "timers_ok s' = timers_ok s"
  by (simp add: timers_ok_def assms)

lemma timers_okI:
  assumes "distinct (map timer_id (timers s))"
    and "\<And>t. t \<in> set (timers s) \<Longrightarrow> timer_id t < nextTimerId s"
    and "\<And>t. t \<in> set (timers s) \<Longrightarrow> is_reconnect t \<Longrightarrow> reconnectTimeoutRef s = Some (timer_id t)"
    and "\<And>i. reconnectTimeoutRef s = Some i \<Longrightarrow> \<exists>t\<in>set (timers s). timer_id t = i \<and> is_reconnect t"
  shows "timers_ok s"
  unfolding timers_ok_def using assms by blast

lemma timers_ok_distinct: "timers_ok s \<Longrightarrow> distinct (map timer_id (timers s))"
  by (simp add: timers_ok_def)

lemma timers_ok_fresh: "timers_ok s \<Longrightarrow> t \<in> set (timers s) \<Longrightarrow> timer_id t < nextTimerId s"
  by (simp add: timers_ok_def)

lemma timers_ok_ref:
  "timers_ok s \<Longrightarrow> t \<in> set (timers s) \<Longrightarrow> is_reconnect t \<Longrightarrow> reconnectTimeoutRef s = Some (timer_id t)"
  by (simp add: timers_ok_def)

lemma timers_ok_pending:
  "timers_ok s \<Longrightarrow> reconnectTimeoutRef s = Some i \<Longrightarrow> \<exists>t\<in>set (timers s). timer_id t = i \<and> is_reconnect t"
  by (simp add: timers_ok_def)

lemma timers_ok_clear:
  assumes "timers_ok s" "reconnectTimeoutRef s = Some i"
  shows "timers_ok ((clearTimeout i s)\<lparr>reconnectTimeoutRef := None\<rparr>)"
proof (rule timers_okI)
  let ?s' = "(clearTimeout i s)\<lparr>reconnectTimeoutRef := None\<rparr>"
  have ts: "timers ?s' = filter (\<lambda>t. timer_id t \<noteq> i) (timers s)"
    by (simp add: clearTimeout_def)
  show "distinct (map timer_id (timers ?s'))"
    unfolding ts using timers_ok_distinct [OF assms(1)] by (rule distinct_map_filter)
  show "timer_id t < nextTimerId ?s'" if "t \<in> set (timers ?s')" for t
    using that timers_ok_fresh [OF assms(1), of t] by (simp add: clearTimeout_def)
  show "reconnectTimeoutRef ?s' = Some (timer_id t)"
    if "t \<in> set (timers ?s')" "is_reconnect t" for t
  proof -
    from that(1) have "t \<in> set (timers s)" "timer_id t \<noteq> i" by (simp_all add: ts)
    with timers_ok_ref [OF assms(1) this(1) that(2)] assms(2) show ?thesis by simp
  qed
  show "\<exists>t\<in>set (timers ?s'). timer_id t = j \<and> is_reconnect t"
    if "reconnectTimeoutRef ?s' = Some j" for j
    using that by simp
qed

lemma timers_ok_clear_other:
  assumes "timers_ok s" "t \<in> set (timers s)" "\<not> is_reconnect t"
  shows "timers_ok (clearTimeout (timer_id t) s)"
proof (rule timers_okI)
  let ?s' = "clearTimeout (timer_id t) s"
  have ts: "timers ?s' = filter (\<lambda>u. timer_id u \<noteq> timer_id t) (timers s)"
    by (simp add: clearTimeout_def)
  have rf: "reconnectTimeoutRef ?s' = reconnectTimeoutRef s" by (simp add: clearTimeout_def)
  show "distinct (map timer_id (timers ?s'))"
    unfolding ts using timers_ok_distinct [OF assms(1)] by (rule distinct_map_filter)
  show "timer_id u < nextTimerId ?s'" if "u \<in> set (timers ?s')" for u
    using that timers_ok_fresh [OF assms(1), of u] by (simp add: clearTimeout_def)
  show "reconnectTimeoutRef ?s' = Some (timer_id u)"
    if "u \<in> set (timers ?s')" "is_reconnect u" for u
  proof -
    from that(1) have "u \<in> set (timers s)" by (simp add: ts)
    from timers_ok_ref [OF assms(1) this that(2)] show ?thesis by (simp add: rf)
  qed
  show "\<exists>u\<in>set (timers ?s'). timer_id u = j \<and> is_reconnect u"
    if "reconnectTimeoutRef ?s' = Some j" for j
  proof -
    from that have "reconnectTimeoutRef s = Some j" by (simp add: rf)
    from timers_ok_pending [OF assms(1) this]
    obtain u where u: "u \<in> set (timers s)" "timer_id u = j" "is_reconnect u" by blast
    with assms(3) have "u \<noteq> t" by blast
    have "inj_on timer_id (set (timers s))"
      using timers_ok_distinct [OF assms(1)] by (simp add: distinct_map)
    with u(1) assms(2) \<open>u \<noteq> t\<close> have "timer_id u \<noteq> timer_id t" by (auto dest: inj_onD)
    with u have "u \<in> set (timers ?s')" by (simp add: ts)
    with u show ?thesis by blast
  qed
qed

lemma timers_ok_schedule:
  assumes "timers_ok s" "reconnectTimeoutRef s = None"
  shows "timers_ok ((snd (setTimeout (Reconnect p) d s))\<lparr>reconnectTimeoutRef := Some (nextTimerId s)\<rparr>)"
proof (rule timers_okI)
  let ?n = "\<lparr>timer_id = nextTimerId s, timer_delay = d, timer_cb = Reconnect p\<rparr>"
  let ?s' = "(snd (setTimeout (Reconnect p) d s))\<lparr>reconnectTimeoutRef := Some (nextTimerId s)\<rparr>"
  have ts: "timers ?s' = timers s @ [?n]" and nx: "nextTimerId ?s' = nextTimerId s + 1"
    and rf: "reconnectTimeoutRef ?s' = Some (nextTimerId s)"
    by (simp_all add: setTimeout_def)
  have fresh: "nextTimerId s \<notin> timer_id ` set (timers s)"
    using timers_ok_fresh [OF assms(1)] by fastforce
  show "distinct (map timer_id (timers ?s'))"
    unfolding ts using timers_ok_distinct [OF assms(1)] fresh by simp
  show "timer_id t < nextTimerId ?s'" if "t \<in> set (timers ?s')" for t
    using that timers_ok_fresh [OF assms(1), of t] unfolding ts nx by auto
  show "reconnectTimeoutRef ?s' = Some (timer_id t)"
    if "t \<in> set (timers ?s')" "is_reconnect t" for t
  proof (cases "t \<in> set (timers s)")
    case True
    from timers_ok_ref [OF assms(1) True that(2)] assms(2) show ?thesis by simp
  next
    case False
    with that(1) have "t = ?n" unfolding ts by simp
    then show ?thesis unfolding rf by simp
  qed
  show "\<exists>t\<in>set (timers ?s'). timer_id t = j \<and> is_reconnect t"
    if "reconnectTimeoutRef ?s' = Some j" for j
  proof -
    from that have "j = nextTimerId s" unfolding rf by simp
    moreover have "?n \<in> set (timers ?s')" unfolding ts by simp
    moreover have "is_reconnect ?n" by (simp add: is_reconnect_def)
    ultimately show ?thesis by (intro bexI [of _ ?n]) simp_all
  qed
qed

lemma timers_ok_save:
  assumes "timers_ok s"
  shows "timers_ok (snd (setTimeout (SaveConnect p) d s))"
proof (rule timers_okI)
  let ?n = "\<lparr>timer_id = nextTimerId s, timer_delay = d, timer_cb = SaveConnect p\<rparr>"
  let ?s' = "snd (setTimeout (SaveConnect p) d s)"
  have ts: "timers ?s' = timers s @ [?n]" and nx: "nextTimerId ?s' = nextTimerId s + 1"
    and rf: "reconnectTimeoutRef ?s' = reconnectTimeoutRef s"
    by (simp_all add: setTimeout_def)
  have fresh: "nextTimerId s \<notin> timer_id ` set (timers s)"
    using timers_ok_fresh [OF assms(1)] by fastforce
  have nr: "\<not> is_reconnect ?n" by (simp add: is_reconnect_def)
  show "distinct (map timer_id (timers ?s'))"
    unfolding ts using timers_ok_distinct [OF assms(1)] fresh by simp
  show "timer_id t < nextTimerId ?s'" if "t \<in> set (timers ?s')" for t
    using that timers_ok_fresh [OF assms(1), of t] unfolding ts nx by auto
  show "reconnectTimeoutRef ?s' = Some (timer_id t)"
    if "t \<in> set (timers ?s')" "is_reconnect t" for t
  proof -
    from that nr have "t \<in> set (timers s)" unfolding ts by auto
    from timers_ok_ref [OF assms(1) this that(2)] show ?thesis unfolding rf .
  qed
  show "\<exists>t\<in>set (timers ?s'). timer_id t = j \<and> is_reconnect t"
    if "reconnectTimeoutRef ?s' = Some j" for j
  proof -
    from that have "reconnectTimeoutRef s = Some j" unfolding rf .
    from timers_ok_pending [OF assms(1) this] show ?thesis unfolding ts by auto
  qed
qed

lemma timers_ok_connect: "timers_ok (connectToServer th p s) = timers_ok s"
  by (rule timers_ok_cong) simp_all

lemma timers_ok_onopen: "timers_ok s \<Longrightarrow> timers_ok (ws_onopen s)"
proof (cases "reconnectTimeoutRef s")
  case None
  assume "timers_ok s"
  then show ?thesis using None by (simp add: ws_onopen_def Let_def timers_ok_def)
next
  case (Some i)
  assume ok: "timers_ok s"
  let ?s1 = "s\<lparr>isConnected := True, connectionError := NoError, connectionAttempts := 0\<rparr>"
  have "timers_ok ?s1" using ok by (simp add: timers_ok_def)
  moreover have "reconnectTimeoutRef ?s1 = Some i" using Some by simp
  ultimately have "timers_ok ((clearTimeout i ?s1)\<lparr>reconnectTimeoutRef := None\<rparr>)"
    by (rule timers_ok_clear)
  then show ?thesis using Some by (simp add: ws_onopen_def Let_def)
qed

lemma ws_onclose_schedule:
  assumes "reconnectTimeoutRef s = None" "connectionAttempts s < 5"
  shows "ws_onclose w code s =
     s\<lparr>isConnected := False, connectionError := close_text w code,
       timers := timers s @ [\<lparr>timer_id = nextTimerId s,
                        timer_delay = min (3000 + connectionAttempts s * 2000) 15000,
                        timer_cb = Reconnect (sock_piIP w)\<rparr>],
       nextTimerId := nextTimerId s + 1,
       reconnectTimeoutRef := Some (nextTimerId s)\<rparr>"
  using assms by (simp add: ws_onclose_def Let_def setTimeout_def backoffDelay_def)

lemma ws_onclose_armed:
  assumes "reconnectTimeoutRef s \<noteq> None" "connectionAttempts s < 5"
  shows "ws_onclose w code s = s\<lparr>isConnected := False, connectionError := close_text w code\<rparr>"
  using assms by (auto simp: ws_onclose_def Let_def)

lemma ws_onclose_exhausted:
  assumes "5 \<le> connectionAttempts s"
  shows "ws_onclose w code s = s\<lparr>isConnected := False, connectionError := FailedAfter5\<rparr>"
  using assms by (simp add: ws_onclose_def Let_def)

lemma ws_onclose_cases:
  obtains (schedule) "reconnectTimeoutRef s = None" "connectionAttempts s < 5"
  | (armed) "reconnectTimeoutRef s \<noteq> None" "connectionAttempts s < 5"
  | (exhausted) "5 \<le> connectionAttempts s"
  by (cases "reconnectTimeoutRef s = None"; cases "connectionAttempts s < 5") auto

lemma ws_onclose_frame [simp]:
  "connectionAttempts (ws_onclose w code s) = connectionAttempts s"
  "sockets (ws_onclose w code s) = sockets s"
  "wsRef (ws_onclose w code s) = wsRef s"
  "piIP (ws_onclose w code s) = piIP s"
  "isConnected (ws_onclose w code s) = False"
proof -
  show "connectionAttempts (ws_onclose w code s) = connectionAttempts s"
    by (cases s rule: ws_onclose_cases)
      (simp_all add: ws_onclose_schedule ws_onclose_armed ws_onclose_exhausted)
  show "sockets (ws_onclose w code s) = sockets s"
    by (cases s rule: ws_onclose_cases)
      (simp_all add: ws_onclose_schedule ws_onclose_armed ws_onclose_exhausted)
  show "wsRef (ws_onclose w code s) = wsRef s"
    by (cases s rule: ws_onclose_cases)
      (simp_all add: ws_onclose_schedule ws_onclose_armed ws_onclose_exhausted)
  show "piIP (ws_onclose w code s) = piIP s"
    by (cases s rule: ws_onclose_cases)
      (simp_all add: ws_onclose_schedule ws_onclose_armed ws_onclose_exhausted)
  show "isConnected (ws_onclose w code s) = False"
    by (cases s rule: ws_onclose_cases)
      (simp_all add: ws_onclose_schedule ws_onclose_armed ws_onclose_exhausted)
qed

lemma timers_ok_onclose:
  assumes "timers_ok s"
  shows "timers_ok (ws_onclose w code s)"
proof (cases s rule: ws_onclose_cases)
  case schedule
  let ?s1 = "s\<lparr>isConnected := False, connectionError := close_text w code\<rparr>"
  have "timers_ok ?s1" using assms by (simp add: timers_ok_def)
  moreover have "reconnectTimeoutRef ?s1 = None" using schedule by simp
  ultimately have "timers_ok ((snd (setTimeout (Reconnect (sock_piIP w))
      (backoffDelay (connectionAttempts s)) ?s1))\<lparr>reconnectTimeoutRef := Some (nextTimerId ?s1)\<rparr>)"
    by (rule timers_ok_schedule)
  then show ?thesis using schedule
    by (simp add: ws_onclose_schedule setTimeout_def backoffDelay_def)
next
  case armed
  then show ?thesis using assms by (simp add: ws_onclose_armed timers_ok_def)
next
  case exhausted
  then show ?thesis using assms by (simp add: ws_onclose_exhausted timers_ok_def)
qed

lemma timers_ok_fire:
  assumes "timers_ok s" "t \<in> set (timers s)"
  shows "timers_ok (fire th t s)"
proof (cases "timer_cb t")
  case (Reconnect p)
  then have r: "is_reconnect t" by (simp add: is_reconnect_def)
  with assms have "reconnectTimeoutRef s = Some (timer_id t)" by (auto simp: timers_ok_def)
  with assms(1) have "timers_ok ((clearTimeout (timer_id t) s)\<lparr>reconnectTimeoutRef := None\<rparr>)"
    by (rule timers_ok_clear)
  then show ?thesis using Reconnect by (simp add: fire_def Let_def timers_ok_connect)
next
  case (SaveConnect p)
  then have "\<not> is_reconnect t" by (simp add: is_reconnect_def)
  with assms have "timers_ok (clearTimeout (timer_id t) s)" by (rule timers_ok_clear_other)
  then show ?thesis using SaveConnect by (simp add: fire_def Let_def timers_ok_connect)
qed

lemma release_refs_timers:
  assumes "timers_ok s"
  shows "timers_ok (release_refs s) \<and> reconnectTimeoutRef (release_refs s) = None
         \<and> wsRef (release_refs s) = None"
proof -
  let ?s1 = "case reconnectTimeoutRef s of None \<Rightarrow> s
             | Some i \<Rightarrow> (clearTimeout i s)\<lparr>reconnectTimeoutRef := None\<rparr>"
  have 1: "timers_ok ?s1 \<and> reconnectTimeoutRef ?s1 = None"
    using assms by (auto split: option.splits intro: timers_ok_clear)
  have 2: "release_refs s = (case wsRef ?s1 of None \<Rightarrow> ?s1 | Some i \<Rightarrow> (ws_close i ?s1)\<lparr>wsRef := None\<rparr>)"
    by (simp add: release_refs_def Let_def)
  show ?thesis
  proof (cases "wsRef ?s1")
    case None
    with 1 2 show ?thesis by simp
  next
    case (Some i)
    have "timers_ok ((ws_close i ?s1)\<lparr>wsRef := None\<rparr>) = timers_ok ?s1"
      by (rule timers_ok_cong) simp_all
    with 1 2 Some show ?thesis by simp
  qed
qed

lemma timers_ok_effect: "timers_ok s \<Longrightarrow> timers_ok (piIP_effect th s)"
  by (simp add: piIP_effect_def Let_def timers_ok_connect release_refs_timers)

lemma timers_ok_piIP_update [simp]: "timers_ok (s\<lparr>piIP := x\<rparr>) = timers_ok s"
  by (simp add: timers_ok_def)

lemma timers_ok_handleSaveSettings: "timers_ok s \<Longrightarrow> timers_ok (handleSaveSettings x s)"
proof -
  assume ok: "timers_ok s"
  show ?thesis
  proof (cases "trim x = []")
    case True
    then show ?thesis using ok by (simp add: handleSaveSettings_def timers_ok_def)
  next
    case False
    let ?s1 = "(disconnectFromServer s)\<lparr>piIP := trim x, connectionAttempts := 0\<rparr>"
    have "timers_ok ?s1 = timers_ok (release_refs s)"
      by (rule timers_ok_cong) (simp_all add: disconnectFromServer_def)
    with ok have "timers_ok ?s1" by (simp add: release_refs_timers)
    then have "timers_ok (snd (setTimeout (SaveConnect (piIP s)) 500 ?s1))" by (rule timers_ok_save)
    with False show ?thesis by (simp add: handleSaveSettings_def Let_def)
  qed
qed

lemma find_timer:
  "find (\<lambda>t. timer_id t = i) ts = Some t \<Longrightarrow> t \<in> set ts \<and> timer_id t = i"
  by (induction ts) (auto split: if_splits)

lemma timers_ok_step:
  assumes "timers_ok s"
  shows "timers_ok (step e s)"
proof (cases e)
  case (LoadSavedIP x th)
  then show ?thesis using assms by (simp add: timers_ok_effect)
next
  case (SaveSettings x th)
  then show ?thesis using assms
    by (simp add: Let_def timers_ok_effect timers_ok_handleSaveSettings)
next
  case (TimerFire i th)
  then show ?thesis using assms
    by (auto split: option.splits dest!: find_timer intro: timers_ok_fire)
next
  case (WsOpen i)
  have "timers_ok (set_readyState i OPEN s) = timers_ok s" by (rule timers_ok_cong) simp_all
  with WsOpen assms show ?thesis by (simp add: timers_ok_onopen)
next
  case (WsClose i code)
  have "timers_ok (set_readyState i CLOSED s) = timers_ok s" by (rule timers_ok_cong) simp_all
  with WsClose assms show ?thesis by (simp add: timers_ok_onclose)
next
  case (WsError i)
  have "timers_ok (ws_onerror (sockets s ! i) s) = timers_ok s" by (rule timers_ok_cong) simp_all
  with WsError assms show ?thesis by simp
qed

lemma timers_ok_initial: "timers_ok initial"
  by (simp add: timers_ok_def initial_def)

lemma reachable_timers_ok: "reachable s \<Longrightarrow> timers_ok s"
  by (induction rule: reachable.induct) (simp_all add: timers_ok_initial timers_ok_step)

lemma distinct_same_length:
  "distinct (map f xs) \<Longrightarrow> \<forall>x\<in>set xs. f x = a \<Longrightarrow> length xs \<le> 1"
proof (induction xs)
  case (Cons x xs)
  then show ?case by (cases xs) auto
qed simp

lemma timers_ok_unarmed:
  assumes "timers_ok s" "reconnectTimeoutRef s = None"
  shows "reconnect_timers s = []"
proof -
  have "\<not> is_reconnect t" if "t \<in> set (timers s)" for t
    using timers_ok_ref [OF assms(1) that] assms(2) by auto
  then show ?thesis by (simp add: reconnect_timers_def filter_empty_conv)
qed

lemma timers_ok_armed:
  assumes "timers_ok s" "reconnectTimeoutRef s = Some i"
  shows "reconnect_timers s \<noteq> []"
proof -
  from timers_ok_pending [OF assms] obtain t where "t \<in> set (timers s)" "is_reconnect t"
    by blast
  then have "t \<in> set (reconnect_timers s)" by (simp add: reconnect_timers_def)
  then show ?thesis by auto
qed

lemma timers_ok_at_most_one:
  assumes "timers_ok s"
  shows "length (reconnect_timers s) \<le> 1"
proof (cases "reconnectTimeoutRef s")
  case None
  with assms have "reconnect_timers s = []" by (rule timers_ok_unarmed)
  then show ?thesis by simp
next
  case (Some i)
  have "distinct (map timer_id (reconnect_timers s))"
    unfolding reconnect_timers_def
    using timers_ok_distinct [OF assms] by (rule distinct_map_filter)
  moreover have "\<forall>t\<in>set (reconnect_timers s). timer_id t = i"
  proof
    fix t assume "t \<in> set (reconnect_timers s)"
    then have "t \<in> set (timers s)" "is_reconnect t" by (simp_all add: reconnect_timers_def)
    from timers_ok_ref [OF assms this] Some show "timer_id t = i" by simp
  qed
  ultimately show ?thesis by (rule distinct_same_length)
qed

lemma timers_ok_armed_iff:
  assumes "timers_ok s"
  shows "reconnectTimeoutRef s = None \<longleftrightarrow> reconnect_timers s = []"
  using timers_ok_unarmed [OF assms] timers_ok_armed [OF assms]
  by (cases "reconnectTimeoutRef s") auto

section \<open>The connection manager: one failed attempt after another\<close>

lemma find_fresh:
  "\<forall>t\<in>set ts. timer_id t < n \<Longrightarrow> timer_id u = n \<Longrightarrow>
   find (\<lambda>t. timer_id t = n) (ts @ [u]) = Some u"
  by (induction ts) auto

lemma filter_older:
  "\<forall>t\<in>set ts. timer_id t < n \<Longrightarrow> filter (\<lambda>t. timer_id t \<noteq> n) ts = ts"
  by (induction ts) auto

lemma clearTimeout_frame [simp]:
  "sockets (clearTimeout j s) = sockets s"
  "wsRef (clearTimeout j s) = wsRef s"
  "connectionAttempts (clearTimeout j s) = connectionAttempts s"
  "reconnectTimeoutRef (clearTimeout j s) = reconnectTimeoutRef s"
  "isConnected (clearTimeout j s) = isConnected s"
  "piIP (clearTimeout j s) = piIP s"
  by (simp_all add: clearTimeout_def)

lemma ws_close_attempts [simp]:
  "connectionAttempts (ws_close i s) = connectionAttempts s"
  by (simp add: ws_close_def)

lemma timers_ok_fail_round: "timers_ok s \<Longrightarrow> timers_ok (fail_round code s)"
  by (simp add: fail_round_def Let_def timers_ok_step split: option.splits del: step.simps)

lemma current_socket_Some:
  "current_socket s = Some w \<Longrightarrow> \<exists>i. wsRef s = Some i \<and> i < length (sockets s) \<and> w = sockets s ! i"
  by (auto simp: current_socket_def split: option.splits if_splits)

lemma attemptingD:
  assumes "attempting k s"
  obtains i where "wsRef s = Some i" "i < length (sockets s)"
    "sock_state (sockets s ! i) = CONNECTING" "trim (sock_piIP (sockets s ! i)) \<noteq> []"
    "timers_ok s" "reconnectTimeoutRef s = None" "connectionAttempts s = k"
proof -
  from assms obtain w where w: "current_socket s = Some w" "sock_state w = CONNECTING"
    "trim (sock_piIP w) \<noteq> []"
    by (auto simp: attempting_def split: option.splits)
  from current_socket_Some [OF w(1)] obtain i where "wsRef s = Some i" "i < length (sockets s)"
    "w = sockets s ! i" by blast
  with w assms that show ?thesis by (simp add: attempting_def)
qed

lemma fail_round_retry:
  assumes "attempting k s" "k < 5"
  shows "attempting (Suc k) (fail_round code s)"
proof -
  from assms(1) obtain i where i: "wsRef s = Some i" "i < length (sockets s)"
    "sock_state (sockets s ! i) = CONNECTING" "trim (sock_piIP (sockets s ! i)) \<noteq> []"
    and ok: "timers_ok s" and rf: "reconnectTimeoutRef s = None"
    and at: "connectionAttempts s = k"
    by (rule attemptingD)
  let ?w = "sockets s ! i"
  let ?p = "sock_piIP ?w"
  let ?s0 = "set_readyState i CLOSED s"
  let ?n = "\<lparr>timer_id = nextTimerId s,
            timer_delay = min (3000 + k * 2000) 15000,
            timer_cb = Reconnect ?p\<rparr>"
  let ?r1 = "?s0\<lparr>isConnected := False, connectionError := close_text ?w code,
       timers := timers s @ [?n], nextTimerId := nextTimerId s + 1,
       reconnectTimeoutRef := Some (nextTimerId s)\<rparr>"
  have s1: "ws_onclose ?w code ?s0 = ?r1"
    using ws_onclose_schedule [of ?s0 ?w code] rf at assms(2) by simp
  have fresh: "\<forall>t\<in>set (timers s). timer_id t < nextTimerId s"
    using timers_ok_fresh [OF ok] by blast
  have fr: "fail_round code s = fire False ?n ?r1"
    using i(1) fresh by (simp add: fail_round_def Let_def s1 find_fresh)
  let ?s2 = "(clearTimeout (nextTimerId s) ?r1)\<lparr>reconnectTimeoutRef := None\<rparr>"
  have fire: "fire False ?n ?r1 = connectToServer False ?p ?s2"
    by (simp add: fire_def Let_def)
  have sk: "sockets ?s2 = (sockets s)[i := ?w\<lparr>sock_state := CLOSED\<rparr>]" and w2: "wsRef ?s2 = Some i"
    and a2: "connectionAttempts ?s2 = k" and r2: "reconnectTimeoutRef ?s2 = None"
    using i(1,2) at by (simp_all add: set_readyState_def)
  have nb: "\<not> busy ?s2"
    using i(1,2) by (simp add: busy_def current_socket_def set_readyState_def)
  have c: "connectToServer False ?p ?s2 =
      ?s2\<lparr>connectionAttempts := Suc k,
          sockets := sockets ?s2 @
            [\<lparr>sock_url = connect_url ?p, sock_piIP = ?p,
              sock_cleanIP = (if isNgrok (connect_cleanIP ?p)
                              then strip_port (connect_cleanIP ?p)
                              else connect_cleanIP ?p),
              sock_state = CONNECTING\<rparr>],
          wsRef := Some (length (sockets ?s2))\<rparr>"
    using i(4) nb r2 a2 by (simp add: connectToServer_def Let_def)
  have "timers_ok (fail_round code s)" using ok by (rule timers_ok_fail_round)
  then have ok2: "timers_ok (connectToServer False ?p ?s2)" by (simp only: fr fire)
  have "attempting (Suc k) (connectToServer False ?p ?s2)"
    unfolding attempting_def
  proof (intro conjI)
    show "timers_ok (connectToServer False ?p ?s2)" by (rule ok2)
    show "reconnectTimeoutRef (connectToServer False ?p ?s2) = None"
      using r2 by simp
    show "connectionAttempts (connectToServer False ?p ?s2) = Suc k"
      by (subst c) simp
    show "case current_socket (connectToServer False ?p ?s2) of None \<Rightarrow> False
          | Some w \<Rightarrow> sock_state w = CONNECTING \<and> trim (sock_piIP w) \<noteq> []"
      by (subst c) (simp add: current_socket_def i(4))
  qed
  then show ?thesis by (simp only: fr fire)
qed

lemma fail_round_exhausts:
  assumes "attempting 5 s"
  shows "exhausted (fail_round code s) \<and> timers_ok (fail_round code s)
         \<and> piIP (fail_round code s) = piIP s"
proof -
  from assms obtain i where i: "wsRef s = Some i" "i < length (sockets s)"
    and ok: "timers_ok s" and rf: "reconnectTimeoutRef s = None"
    and at: "connectionAttempts s = 5"
    by (rule attemptingD)
  let ?w = "sockets s ! i"
  let ?s0 = "set_readyState i CLOSED s"
  let ?r1 = "?s0\<lparr>isConnected := False, connectionError := FailedAfter5\<rparr>"
  have s1: "ws_onclose ?w code ?s0 = ?r1"
    using ws_onclose_exhausted [of ?s0 ?w code] at by simp
  have fr: "fail_round code s = ?r1"
    using i(1) rf by (simp add: fail_round_def Let_def s1)
  have ok1: "timers_ok (fail_round code s)" using ok by (rule timers_ok_fail_round)
  have r1: "reconnectTimeoutRef ?r1 = None" using rf by simp
  have "reconnect_timers ?r1 = []" using ok1 r1 unfolding fr by (rule timers_ok_unarmed)
  moreover have "\<not> busy ?r1"
    using i by (simp add: busy_def current_socket_def set_readyState_def)
  ultimately have "exhausted ?r1"
    using r1 at by (simp add: exhausted_def)
  moreover have "piIP ?r1 = piIP s" by simp
  ultimately show ?thesis using ok1 unfolding fr by simp
qed

lemma exhausted_no_schedule:
  assumes "exhausted s"
  shows "timers (ws_onclose w code s) = timers s
         \<and> reconnectTimeoutRef (ws_onclose w code s) = None"
proof -
  from assms have "5 \<le> connectionAttempts s" "reconnectTimeoutRef s = None"
    by (simp_all add: exhausted_def)
  then show ?thesis by (simp add: ws_onclose_exhausted)
qed

lemma release_refs_frame [simp]:
  "isConnected (release_refs s) = isConnected s"
  "piIP (release_refs s) = piIP s"
  "connectionAttempts (release_refs s) = connectionAttempts s"
  by (simp_all add: release_refs_def Let_def clearTimeout_def split: option.splits)

lemma handleSaveSettings_resets:
  assumes "trim x \<noteq> []"
  shows "connectionAttempts (handleSaveSettings x s) = 0"
    and "piIP (handleSaveSettings x s) = trim x"
    and "reconnectTimeoutRef (handleSaveSettings x s) = None"
    and "wsRef (handleSaveSettings x s) = None"
    and "isConnected (handleSaveSettings x s) = isConnected s"
    and "sockets (handleSaveSettings x s) = sockets (release_refs s)"
proof -
  have h: "handleSaveSettings x s =
      snd (setTimeout (SaveConnect (piIP s)) 500
        ((disconnectFromServer s)\<lparr>piIP := trim x, connectionAttempts := 0\<rparr>))"
    using assms by (simp add: handleSaveSettings_def Let_def)
  have r: "reconnectTimeoutRef (release_refs s) = None" "wsRef (release_refs s) = None"
    by (simp_all add: release_refs_def Let_def split: option.splits)
  show "connectionAttempts (handleSaveSettings x s) = 0"
    "piIP (handleSaveSettings x s) = trim x"
    "reconnectTimeoutRef (handleSaveSettings x s) = None"
    "wsRef (handleSaveSettings x s) = None"
    "isConnected (handleSaveSettings x s) = isConnected s"
    "sockets (handleSaveSettings x s) = sockets (release_refs s)"
    by (simp_all add: h setTimeout_def disconnectFromServer_def r)
qed

lemma reconfigure_resumes:
  assumes "timers_ok s" "\<not> isConnected s" "trim x \<noteq> []" "trim x \<noteq> piIP s"
  shows "attempting 1 (step (SaveSettings x False) s)
     \<and> (\<exists>w. current_socket (step (SaveSettings x False) s) = Some w
            \<and> sock_url w = connect_url (trim x) \<and> sock_state w = CONNECTING)"
proof -
  let ?h = "handleSaveSettings x s"
  note hs = handleSaveSettings_resets [OF assms(3), of s]
  have okh: "timers_ok ?h" using assms(1) by (rule timers_ok_handleSaveSettings)
  have rr: "release_refs ?h = ?h"
    using hs(3,4) by (simp add: release_refs_def Let_def)
  have st: "step (SaveSettings x False) s = connectToServer False (trim x) ?h"
    using assms(2,3,4) hs by (simp add: Let_def piIP_effect_def rr)
  have nb: "\<not> busy ?h" using hs(4) by (simp add: busy_def current_socket_def)
  have tt: "trim (trim x) \<noteq> []" using assms(3) by (simp add: trim_idem)
  have c: "connectToServer False (trim x) ?h =
      ?h\<lparr>connectionAttempts := Suc 0,
          sockets := sockets ?h @
            [\<lparr>sock_url = connect_url (trim x), sock_piIP = trim x,
              sock_cleanIP = (if isNgrok (connect_cleanIP (trim x))
                              then strip_port (connect_cleanIP (trim x))
                              else connect_cleanIP (trim x)),
              sock_state = CONNECTING\<rparr>],
          wsRef := Some (length (sockets ?h))\<rparr>"
    using tt nb hs(1,3) by (simp add: connectToServer_def Let_def)
  have "timers_ok (connectToServer False (trim x) ?h)"
    using okh by (simp add: timers_ok_connect)
  moreover have "reconnectTimeoutRef (connectToServer False (trim x) ?h) = None"
    using hs(3) by simp
  moreover have "connectionAttempts (connectToServer False (trim x) ?h) = 1"
    by (subst c) simp
  moreover have cs: "current_socket (connectToServer False (trim x) ?h) =
      Some \<lparr>sock_url = connect_url (trim x), sock_piIP = trim x,
              sock_cleanIP = (if isNgrok (connect_cleanIP (trim x))
                              then strip_port (connect_cleanIP (trim x))
                              else connect_cleanIP (trim x)),
              sock_state = CONNECTING\<rparr>"
    by (subst c) (simp add: current_socket_def)
  ultimately have "attempting 1 (connectToServer False (trim x) ?h)"
    using tt by (simp add: attempting_def)
  then show ?thesis using cs by (simp only: st) simp
qed

lemma current_socket_cong:
  "wsRef s' = wsRef s \<Longrightarrow> sockets s' = sockets s \<Longrightarrow> current_socket s' = current_socket s"
  by (cases "wsRef s") (simp_all add: current_socket_def)

lemma busy_frame [simp]:
  "busy (clearTimeout j s) = busy s"
  "busy (s\<lparr>reconnectTimeoutRef := r\<rparr>) = busy s"
proof -
  have "current_socket (clearTimeout j s) = current_socket s"
    by (rule current_socket_cong) simp_all
  then show "busy (clearTimeout j s) = busy s" by (simp add: busy_def)
  have "current_socket (s\<lparr>reconnectTimeoutRef := r\<rparr>) = current_socket s"
    by (rule current_socket_cong) simp_all
  then show "busy (s\<lparr>reconnectTimeoutRef := r\<rparr>) = busy s" by (simp add: busy_def)
qed

lemma connectToServer_attempts:
  "connectionAttempts (connectToServer th p s) =
     (if trim p \<noteq> [] \<and> \<not> busy s \<and> reconnectTimeoutRef s = None
      then connectionAttempts s + 1 else connectionAttempts s)"
  by (simp add: connectToServer_def Let_def)

lemma connectToServer_piIP [simp]: "piIP (connectToServer th p s) = piIP s"
  by (simp add: connectToServer_def Let_def)

lemma fire_reconnect_attempts:
  assumes "timer_cb t = Reconnect p"
  shows "connectionAttempts (fire th t s) =
     (if trim p \<noteq> [] \<and> \<not> busy s then connectionAttempts s + 1 else connectionAttempts s)"
  using assms by (simp add: fire_def Let_def connectToServer_attempts)

lemma fire_piIP [simp]: "piIP (fire th t s) = piIP s"
  by (cases "timer_cb t") (simp_all add: fire_def Let_def)

lemma fail_round_piIP [simp]: "piIP (fail_round code s) = piIP s"
  by (simp add: fail_round_def Let_def split: option.splits)

lemma ws_onclose_arms:
  assumes "connectionAttempts s < 5"
  shows "reconnectTimeoutRef (ws_onclose w code s) \<noteq> None"
proof (cases "reconnectTimeoutRef s = None")
  case True
  then show ?thesis using assms by (simp add: ws_onclose_schedule)
next
  case False
  then show ?thesis using assms by (simp add: ws_onclose_armed)
qed

lemma ws_onclose_no_second:
  assumes "reconnectTimeoutRef s \<noteq> None"
  shows "timers (ws_onclose w code s) = timers s"
proof (cases "connectionAttempts s < 5")
  case True
  with assms show ?thesis by (simp add: ws_onclose_armed)
next
  case False
  then show ?thesis by (simp add: ws_onclose_exhausted)
qed

lemma timers_ok_exactly_one:
  assumes "timers_ok s" "reconnectTimeoutRef s \<noteq> None"
  shows "length (reconnect_timers s) = 1"
proof -
  from assms have "reconnect_timers s \<noteq> []" by (auto dest: timers_ok_armed)
  moreover have "length (reconnect_timers s) \<le> 1" using assms(1) by (rule timers_ok_at_most_one)
  ultimately show ?thesis by (cases "reconnect_timers s") auto
qed

section \<open>The connection manager: example runs\<close>

lemma ex_attempting:
  "step (LoadSavedIP ''192.168.1.100'' False) initial =
   \<lparr>piIP = ''192.168.1.100'', isConnected = False, connectionError = NoError,
    connectionAttempts = 1, wsRef = Some 0, reconnectTimeoutRef = None,
    sockets =
      [\<lparr>sock_url = ''ws://192.168.1.100:8765'',
          sock_piIP = ''192.168.1.100'', sock_cleanIP = ''192.168.1.100'',
          sock_state = CONNECTING\<rparr>],
    timers = [], nextTimerId = 1\<rparr>"
  by (simp add: link_defs eval_defs)

lemma ex_reconfigured:
  "step (SaveSettings ''10.0.0.7'' False) (step (LoadSavedIP ''192.168.1.100'' False) initial) =
   \<lparr>piIP = ''10.0.0.7'', isConnected = False, connectionError = NoError,
    connectionAttempts = 1, wsRef = Some 1, reconnectTimeoutRef = None,
    sockets =
      [\<lparr>sock_url = ''ws://192.168.1.100:8765'',
          sock_piIP = ''192.168.1.100'', sock_cleanIP = ''192.168.1.100'',
          sock_state = CLOSING\<rparr>,
       \<lparr>sock_url = ''ws://10.0.0.7:8765'', sock_piIP = ''10.0.0.7'',
          sock_cleanIP = ''10.0.0.7'', sock_state = CONNECTING\<rparr>],
    timers = [\<lparr>timer_id = 1, timer_delay = 500, timer_cb = SaveConnect ''192.168.1.100''\<rparr>],
    nextTimerId = 2\<rparr>"
  unfolding ex_attempting by (simp add: link_defs eval_defs)

lemma ex_one_failure:
  "step (WsClose 0 1005)
     (step (SaveSettings ''10.0.0.7'' False) (step (LoadSavedIP ''192.168.1.100'' False) initial)) =
   \<lparr>piIP = ''10.0.0.7'', isConnected = False, connectionError = ClosedWithCode 1005,
    connectionAttempts = 1, wsRef = Some 1, reconnectTimeoutRef = Some 2,
    sockets =
      [\<lparr>sock_url = ''ws://192.168.1.100:8765'',
          sock_piIP = ''192.168.1.100'', sock_cleanIP = ''192.168.1.100'',
          sock_state = CLOSED\<rparr>,
       \<lparr>sock_url = ''ws://10.0.0.7:8765'', sock_piIP = ''10.0.0.7'',
          sock_cleanIP = ''10.0.0.7'', sock_state = CONNECTING\<rparr>],
    timers = [\<lparr>timer_id = 1, timer_delay = 500, timer_cb = SaveConnect ''192.168.1.100''\<rparr>,
              \<lparr>timer_id = 2, timer_delay = 5000, timer_cb = Reconnect ''192.168.1.100''\<rparr>],
    nextTimerId = 3\<rparr>"
  unfolding ex_reconfigured by (simp add: link_defs)

lemma ex_two_failures:
  "step (WsClose 1 1006) (step (WsClose 0 1005)
     (step (SaveSettings ''10.0.0.7'' False) (step (LoadSavedIP ''192.168.1.100'' False) initial))) =
   \<lparr>piIP = ''10.0.0.7'', isConnected = False, connectionError = ServerNotRunning,
    connectionAttempts = 1, wsRef = Some 1, reconnectTimeoutRef = Some 2,
    sockets =
      [\<lparr>sock_url = ''ws://192.168.1.100:8765'',
          sock_piIP = ''192.168.1.100'', sock_cleanIP = ''192.168.1.100'',
          sock_state = CLOSED\<rparr>,
       \<lparr>sock_url = ''ws://10.0.0.7:8765'', sock_piIP = ''10.0.0.7'',
          sock_cleanIP = ''10.0.0.7'', sock_state = CLOSED\<rparr>],
    timers = [\<lparr>timer_id = 1, timer_delay = 500, timer_cb = SaveConnect ''192.168.1.100''\<rparr>,
              \<lparr>timer_id = 2, timer_delay = 5000, timer_cb = Reconnect ''192.168.1.100''\<rparr>],
    nextTimerId = 3\<rparr>"
  unfolding ex_one_failure by (simp add: link_defs)

lemma ex_attempting_1: "attempting 1 (step (LoadSavedIP ''192.168.1.100'' False) initial)"
  unfolding ex_attempting
  by (simp add: attempting_def timers_ok_def current_socket_def trim_def is_space_def)

lemma ex_exhausted:
  "fail_round 1006 (fail_round 1006 (fail_round 1006 (fail_round 1006 (fail_round 1006
     (step (LoadSavedIP ''192.168.1.100'' False) initial))))) =
   \<lparr>piIP = ''192.168.1.100'', isConnected = False,
    connectionError = FailedAfter5, connectionAttempts = 5, wsRef = Some 4,
    reconnectTimeoutRef = None,
    sockets =
      [\<lparr>sock_url = ''ws://192.168.1.100:8765'',
          sock_piIP = ''192.168.1.100'', sock_cleanIP = ''192.168.1.100'',
          sock_state = CLOSED\<rparr>,
       \<lparr>sock_url = ''ws://192.168.1.100:8765'',
          sock_piIP = ''192.168.1.100'', sock_cleanIP = ''192.168.1.100'',
          sock_state = CLOSED\<rparr>,
       \<lparr>sock_url = ''ws://192.168.1.100:8765'',
          sock_piIP = ''192.168.1.100'', sock_cleanIP = ''192.168.1.100'',
          sock_state = CLOSED\<rparr>,
       \<lparr>sock_url = ''ws://192.168.1.100:8765'',
          sock_piIP = ''192.168.1.100'', sock_cleanIP = ''192.168.1.100'',
          sock_state = CLOSED\<rparr>,
       \<lparr>sock_url = ''ws://192.168.1.100:8765'',
          sock_piIP = ''192.168.1.100'', sock_cleanIP = ''192.168.1.100'',
          sock_state = CLOSED\<rparr>],
    timers = [], nextTimerId = 5\<rparr>"
  unfolding ex_attempting by (simp add: fail_round_def link_defs eval_defs)

section \<open>The connection manager: at most one reconnect timer\<close>

text \<open>
  Claim C3. In every reachable state at most one reconnect timer is pending, and one is
  pending exactly when \<^verbatim>\<open>reconnectTimeoutRef\<close> holds a timer. A close event that arrives while
  the ref holds a timer leaves the timer table as it is. So after two close events in a
  row at most one reconnect timer is pending, and exactly one when fewer than five attempts
  had been counted.
\<close>

theorem at_most_one_reconnect_timer:
  assumes "reachable s"
  shows "length (reconnect_timers s) \<le> 1
     \<and> (reconnectTimeoutRef s = None \<longleftrightarrow> reconnect_timers s = [])
     \<and> (reconnectTimeoutRef s \<noteq> None \<longrightarrow> timers (ws_onclose w code s) = timers s)
     \<and> length (reconnect_timers (step (WsClose j code') (step (WsClose i code) s))) \<le> 1
     \<and> (connectionAttempts s < 5 \<longrightarrow>
          length (reconnect_timers (step (WsClose j code') (step (WsClose i code) s))) = 1)"
proof -
  let ?s1 = "step (WsClose i code) s"
  let ?s2 = "step (WsClose j code') ?s1"
  from assms have ok: "timers_ok s" by (rule reachable_timers_ok)
  then have ok1: "timers_ok ?s1" by (rule timers_ok_step)
  then have ok2: "timers_ok ?s2" by (rule timers_ok_step)
  have one: "length (reconnect_timers ?s2) = 1" if "connectionAttempts s < 5"
  proof -
    from that have "connectionAttempts ?s1 < 5" by simp
    then have "reconnectTimeoutRef ?s2 \<noteq> None" by (simp add: ws_onclose_arms)
    with ok2 show ?thesis by (rule timers_ok_exactly_one)
  qed
  show ?thesis
    using timers_ok_at_most_one [OF ok] timers_ok_armed_iff [OF ok]
      timers_ok_at_most_one [OF ok2] one ws_onclose_no_second [of s w code]
    by blast
qed

theorem at_most_one_reconnect_timer_witness:
  "reachable (step (SaveSettings ''10.0.0.7'' False) (step (LoadSavedIP ''192.168.1.100'' False) initial))
   \<and> connectionAttempts
        (step (SaveSettings ''10.0.0.7'' False) (step (LoadSavedIP ''192.168.1.100'' False) initial)) < 5
   \<and> length (reconnect_timers (step (WsClose 1 1006) (step (WsClose 0 1005)
        (step (SaveSettings ''10.0.0.7'' False) (step (LoadSavedIP ''192.168.1.100'' False) initial))))) = 1
   \<and> reconnect_timers (step (WsClose 1 1006) (step (WsClose 0 1005)
        (step (SaveSettings ''10.0.0.7'' False) (step (LoadSavedIP ''192.168.1.100'' False) initial)))) =
       [\<lparr>timer_id = 2, timer_delay = 5000, timer_cb = Reconnect ''192.168.1.100''\<rparr>]
   \<and> reachable (step (WsClose 0 1005)
        (step (SaveSettings ''10.0.0.7'' False) (step (LoadSavedIP ''192.168.1.100'' False) initial)))
   \<and> reconnectTimeoutRef (step (WsClose 0 1005)
        (step (SaveSettings ''10.0.0.7'' False) (step (LoadSavedIP ''192.168.1.100'' False) initial))) \<noteq> None
   \<and> timers (ws_onclose
        \<lparr>sock_url = ''ws://10.0.0.7:8765'', sock_piIP = ''10.0.0.7'',
          sock_cleanIP = ''10.0.0.7'', sock_state = CONNECTING\<rparr> 1006
        (step (WsClose 0 1005)
          (step (SaveSettings ''10.0.0.7'' False) (step (LoadSavedIP ''192.168.1.100'' False) initial)))) =
       timers (step (WsClose 0 1005)
          (step (SaveSettings ''10.0.0.7'' False) (step (LoadSavedIP ''192.168.1.100'' False) initial)))"
proof -
  let ?a = "step (LoadSavedIP ''192.168.1.100'' False) initial"
  let ?x = "step (SaveSettings ''10.0.0.7'' False) ?a"
  let ?y = "step (WsClose 0 1005) ?x"
  have ra: "reachable ?a" by (rule reachable.step [OF reachable.init]) simp
  have rx: "reachable ?x" by (rule reachable.step [OF ra]) simp
  have "enabled (WsClose 0 1005) ?x" unfolding ex_reconfigured by simp
  with rx have ry: "reachable ?y" by (rule reachable.step)
  have ax: "connectionAttempts ?x < 5" unfolding ex_reconfigured by simp
  have ny: "reconnectTimeoutRef ?y \<noteq> None" unfolding ex_one_failure by simp
  have two: "reconnect_timers (step (WsClose 1 1006) ?y) =
       [\<lparr>timer_id = 2, timer_delay = 5000, timer_cb = Reconnect ''192.168.1.100''\<rparr>]"
    unfolding ex_two_failures by (simp add: reconnect_timers_def is_reconnect_def)
  from at_most_one_reconnect_timer [OF rx, where j = 1 and code' = 1006 and i = 0 and code = 1005]
    at_most_one_reconnect_timer [OF ry,
      where w = "\<lparr>sock_url = ''ws://10.0.0.7:8765'', sock_piIP = ''10.0.0.7'',
          sock_cleanIP = ''10.0.0.7'', sock_state = CONNECTING\<rparr>" and code = 1006]
    rx ry ax ny two
  show ?thesis by blast
qed

section \<open>The connection manager: the backoff delay and the attempt counter\<close>

text \<open>
  Claim C4. A close event schedules a reconnect timer exactly when no timer is armed and the
  attempt counter is below 5; the timer then has the delay
  \<open>min (3000 + attempt * 2000) 15000\<close> milliseconds for the current counter \<open>attempt\<close>, and the
  close event itself leaves the counter unchanged. When a reconnect timer fires, the counter
  grows by exactly one if the attempt starts (the address is not blank and no socket is
  connecting or open) and stays as it is otherwise. In the retry cycle, where the socket
  that is connecting fails and the timer armed by that failure fires, attempt \<open>k\<close> is
  followed by attempt \<open>k + 1\<close>.
\<close>

theorem reconnect_backoff:
  "(timers (ws_onclose w code s) \<noteq> timers s
      \<longleftrightarrow> reconnectTimeoutRef s = None \<and> connectionAttempts s < 5)
   \<and> (reconnectTimeoutRef s = None \<and> connectionAttempts s < 5 \<longrightarrow>
        timers (ws_onclose w code s) =
          timers s @ [\<lparr>timer_id = nextTimerId s,
                       timer_delay = min (3000 + connectionAttempts s * 2000) 15000,
                       timer_cb = Reconnect (sock_piIP w)\<rparr>]
        \<and> reconnectTimeoutRef (ws_onclose w code s) = Some (nextTimerId s))
   \<and> connectionAttempts (ws_onclose w code s) = connectionAttempts s
   \<and> (timer_cb t = Reconnect p \<longrightarrow>
        connectionAttempts (fire throws t s') =
          (if trim p \<noteq> [] \<and> \<not> busy s' then connectionAttempts s' + 1
           else connectionAttempts s'))
   \<and> (attempting k s'' \<and> k < 5 \<longrightarrow> attempting (k + 1) (fail_round code'' s''))"
proof -
  have a: "timers (ws_onclose w code s) \<noteq> timers s
      \<longleftrightarrow> reconnectTimeoutRef s = None \<and> connectionAttempts s < 5"
  proof (cases s rule: ws_onclose_cases)
    case schedule
    then show ?thesis by (simp add: ws_onclose_schedule)
  next
    case armed
    then show ?thesis by (simp add: ws_onclose_armed)
  next
    case exhausted
    then show ?thesis by (simp add: ws_onclose_exhausted)
  qed
  have b: "reconnectTimeoutRef s = None \<and> connectionAttempts s < 5 \<longrightarrow>
        timers (ws_onclose w code s) =
          timers s @ [\<lparr>timer_id = nextTimerId s,
                       timer_delay = min (3000 + connectionAttempts s * 2000) 15000,
                       timer_cb = Reconnect (sock_piIP w)\<rparr>]
        \<and> reconnectTimeoutRef (ws_onclose w code s) = Some (nextTimerId s)"
    by (simp add: ws_onclose_schedule)
  have c: "connectionAttempts (ws_onclose w code s) = connectionAttempts s" by simp
  have d: "timer_cb t = Reconnect p \<longrightarrow>
        connectionAttempts (fire throws t s') =
          (if trim p \<noteq> [] \<and> \<not> busy s' then connectionAttempts s' + 1
           else connectionAttempts s')"
    using fire_reconnect_attempts [of t p throws s'] by blast
  have e: "attempting k s'' \<and> k < 5 \<longrightarrow> attempting (k + 1) (fail_round code'' s'')"
    using fail_round_retry [of k s'' code''] by simp
  from a b c d e show ?thesis by (intro conjI)
qed

theorem reconnect_backoff_witness:
  "reconnectTimeoutRef (step (LoadSavedIP ''192.168.1.100'' False) initial) = None
   \<and> connectionAttempts (step (LoadSavedIP ''192.168.1.100'' False) initial) < 5
   \<and> timers (ws_onclose
        \<lparr>sock_url = ''ws://192.168.1.100:8765'', sock_piIP = ''192.168.1.100'',
          sock_cleanIP = ''192.168.1.100'', sock_state = CONNECTING\<rparr> 1006
        (step (LoadSavedIP ''192.168.1.100'' False) initial)) =
       [\<lparr>timer_id = 1, timer_delay = 5000, timer_cb = Reconnect ''192.168.1.100''\<rparr>]
   \<and> connectionAttempts (ws_onclose
        \<lparr>sock_url = ''ws://192.168.1.100:8765'', sock_piIP = ''192.168.1.100'',
          sock_cleanIP = ''192.168.1.100'', sock_state = CONNECTING\<rparr> 1006
        (step (LoadSavedIP ''192.168.1.100'' False) initial)) = 1
   \<and> timer_cb \<lparr>timer_id = 1, timer_delay = 5000, timer_cb = Reconnect ''192.168.1.100''\<rparr>
       = Reconnect ''192.168.1.100''
   \<and> connectionAttempts
        (fire False \<lparr>timer_id = 1, timer_delay = 5000, timer_cb = Reconnect ''192.168.1.100''\<rparr>
          (step (WsClose 0 1006) (step (LoadSavedIP ''192.168.1.100'' False) initial))) = 2
   \<and> attempting 1 (step (LoadSavedIP ''192.168.1.100'' False) initial) \<and> (1 :: nat) < 5
   \<and> attempting 2 (fail_round 1006 (step (LoadSavedIP ''192.168.1.100'' False) initial))"
proof -
  let ?a = "step (LoadSavedIP ''192.168.1.100'' False) initial"
  let ?w = "\<lparr>sock_url = ''ws://192.168.1.100:8765'', sock_piIP = ''192.168.1.100'',
          sock_cleanIP = ''192.168.1.100'', sock_state = CONNECTING\<rparr>"
  let ?t = "\<lparr>timer_id = 1, timer_delay = 5000, timer_cb = Reconnect ''192.168.1.100''\<rparr>"
  note th = reconnect_backoff [where s = ?a and w = ?w and code = 1006 and t = ?t
      and p = "''192.168.1.100''" and throws = False and s' = "step (WsClose 0 1006) ?a"
      and k = 1 and s'' = ?a and code'' = 1006]
  have r: "reconnectTimeoutRef ?a = None" and a: "connectionAttempts ?a = 1"
    and n: "nextTimerId ?a = 1" and ts: "timers ?a = []"
    unfolding ex_attempting by simp_all
  have tr: "trim ''192.168.1.100'' \<noteq> []" by (simp add: trim_def is_space_def)
  have nb: "\<not> busy (step (WsClose 0 1006) ?a)"
    unfolding ex_attempting by (simp add: link_defs)
  have ca: "connectionAttempts (step (WsClose 0 1006) ?a) = 1"
    unfolding ex_attempting by (simp add: link_defs)
  from th have b: "reconnectTimeoutRef ?a = None \<and> connectionAttempts ?a < 5 \<longrightarrow>
        timers (ws_onclose ?w 1006 ?a) =
          timers ?a @ [\<lparr>timer_id = nextTimerId ?a,
                       timer_delay = min (3000 + connectionAttempts ?a * 2000) 15000,
                       timer_cb = Reconnect (sock_piIP ?w)\<rparr>]
        \<and> reconnectTimeoutRef (ws_onclose ?w 1006 ?a) = Some (nextTimerId ?a)"
    by (elim conjE)
  have 1: "timers (ws_onclose ?w 1006 ?a) = [?t]"
    using b by (simp only: r a n ts) simp
  from th have "connectionAttempts (ws_onclose ?w 1006 ?a) = connectionAttempts ?a"
    by (elim conjE)
  then have 2: "connectionAttempts (ws_onclose ?w 1006 ?a) = 1"
    by (simp only: a)
  from th have d: "timer_cb ?t = Reconnect ''192.168.1.100'' \<longrightarrow>
      connectionAttempts (fire False ?t (step (WsClose 0 1006) ?a)) =
        (if trim ''192.168.1.100'' \<noteq> [] \<and> \<not> busy (step (WsClose 0 1006) ?a)
         then connectionAttempts (step (WsClose 0 1006) ?a) + 1
         else connectionAttempts (step (WsClose 0 1006) ?a))"
    by (elim conjE)
  have tc: "timer_cb ?t = Reconnect ''192.168.1.100''" by simp
  from d tc have "connectionAttempts (fire False ?t (step (WsClose 0 1006) ?a)) =
        (if trim ''192.168.1.100'' \<noteq> [] \<and> \<not> busy (step (WsClose 0 1006) ?a)
         then connectionAttempts (step (WsClose 0 1006) ?a) + 1
         else connectionAttempts (step (WsClose 0 1006) ?a))"
    by (rule mp)
  then have 3: "connectionAttempts (fire False ?t (step (WsClose 0 1006) ?a)) = 2"
    by (simp only: tr nb ca simp_thms if_True one_add_one)
  from th have e: "attempting 1 ?a \<and> (1 :: nat) < 5 \<longrightarrow> attempting (1 + 1) (fail_round 1006 ?a)"
    by (elim conjE)
  have "(1 :: nat) < 5" by simp
  with e ex_attempting_1 have "attempting (1 + 1) (fail_round 1006 ?a)" by blast
  moreover have "(1 :: nat) + 1 = 2" by simp
  ultimately have 4: "attempting 2 (fail_round 1006 ?a)" by (simp only:)
  have a5: "connectionAttempts ?a < 5" by (simp only: a)
  have l5: "(1 :: nat) < 5" by simp
  from r a5 1 2 tc 3 ex_attempting_1 l5 4 show ?thesis by (intro conjI)
qed

section \<open>The connection manager: exhaustion and reconfiguration\<close>

text \<open>
  Claim C2. Start with the first attempt in progress and let five attempts in a row fail,
  none of them opening. Then the manager is exhausted: the counter is 5, no reconnect timer
  is pending, and a further close event schedules none. Saving a new address after that
  resets the counter to 0 and, once the effect for the new address has run, a socket is
  connecting to the new control URL as attempt 1.
\<close>

theorem five_failures_exhaust_then_reconfigure:
  fixes s :: link and c1 c2 c3 c4 c5 :: nat
  defines "s5 \<equiv> fail_round c5 (fail_round c4 (fail_round c3 (fail_round c2 (fail_round c1 s))))"
  assumes "attempting 1 s"
  shows "exhausted s5
     \<and> timers (ws_onclose w code s5) = timers s5
     \<and> reconnectTimeoutRef (ws_onclose w code s5) = None
     \<and> (trim x \<noteq> [] \<and> trim x \<noteq> piIP s5 \<longrightarrow>
          connectionAttempts (handleSaveSettings x s5) = 0
          \<and> piIP (handleSaveSettings x s5) = trim x
          \<and> attempting 1 (step (SaveSettings x False) s5)
          \<and> (\<exists>w'. current_socket (step (SaveSettings x False) s5) = Some w'
                 \<and> sock_url w' = connect_url (trim x) \<and> sock_state w' = CONNECTING))"
proof -
  have "attempting (Suc 0) s" using assms(2) by simp
  then have "attempting (Suc (Suc 0)) (fail_round c1 s)" by (rule fail_round_retry) simp
  then have "attempting (Suc (Suc (Suc 0))) (fail_round c2 (fail_round c1 s))"
    by (rule fail_round_retry) simp
  then have "attempting (Suc (Suc (Suc (Suc 0)))) (fail_round c3 (fail_round c2 (fail_round c1 s)))"
    by (rule fail_round_retry) simp
  then have "attempting (Suc (Suc (Suc (Suc (Suc 0)))))
      (fail_round c4 (fail_round c3 (fail_round c2 (fail_round c1 s))))"
    by (rule fail_round_retry) simp
  then have "attempting 5 (fail_round c4 (fail_round c3 (fail_round c2 (fail_round c1 s))))"
    by (simp add: eval_nat_numeral)
  from fail_round_exhausts [OF this, of c5]
  have ex: "exhausted s5" and ok: "timers_ok s5" by (simp_all add: s5_def)
  from ex have nc: "\<not> isConnected s5" by (simp add: exhausted_def)
  have r: "trim x \<noteq> [] \<and> trim x \<noteq> piIP s5 \<longrightarrow>
          connectionAttempts (handleSaveSettings x s5) = 0
          \<and> piIP (handleSaveSettings x s5) = trim x
          \<and> attempting 1 (step (SaveSettings x False) s5)
          \<and> (\<exists>w'. current_socket (step (SaveSettings x False) s5) = Some w'
                 \<and> sock_url w' = connect_url (trim x) \<and> sock_state w' = CONNECTING)"
    using reconfigure_resumes [OF ok nc, of x] handleSaveSettings_resets(1,2) [of x s5]
    by blast
  from ex exhausted_no_schedule [OF ex, of w code] r show ?thesis by (intro conjI) blast+
qed

theorem five_failures_exhaust_then_reconfigure_witness:
  "attempting 1 (step (LoadSavedIP ''192.168.1.100'' False) initial)
   \<and> exhausted (fail_round 1006 (fail_round 1006 (fail_round 1006 (fail_round 1006
        (fail_round 1006 (step (LoadSavedIP ''192.168.1.100'' False) initial))))))
   \<and> connectionAttempts (fail_round 1006 (fail_round 1006 (fail_round 1006 (fail_round 1006
        (fail_round 1006 (step (LoadSavedIP ''192.168.1.100'' False) initial)))))) = 5
   \<and> timers (fail_round 1006 (fail_round 1006 (fail_round 1006 (fail_round 1006
        (fail_round 1006 (step (LoadSavedIP ''192.168.1.100'' False) initial)))))) = []
   \<and> timers (ws_onclose
        \<lparr>sock_url = ''ws://192.168.1.100:8765'', sock_piIP = ''192.168.1.100'',
          sock_cleanIP = ''192.168.1.100'', sock_state = CLOSED\<rparr> 1006
        (fail_round 1006 (fail_round 1006 (fail_round 1006 (fail_round 1006
          (fail_round 1006 (step (LoadSavedIP ''192.168.1.100'' False) initial))))))) = []
   \<and> trim ''10.0.0.7'' \<noteq> []
   \<and> trim ''10.0.0.7'' \<noteq> piIP (fail_round 1006 (fail_round 1006 (fail_round 1006
        (fail_round 1006 (fail_round 1006 (step (LoadSavedIP ''192.168.1.100'' False) initial))))))
   \<and> connectionAttempts (handleSaveSettings ''10.0.0.7''
        (fail_round 1006 (fail_round 1006 (fail_round 1006 (fail_round 1006
          (fail_round 1006 (step (LoadSavedIP ''192.168.1.100'' False) initial))))))) = 0
   \<and> attempting 1 (step (SaveSettings ''10.0.0.7'' False)
        (fail_round 1006 (fail_round 1006 (fail_round 1006 (fail_round 1006
          (fail_round 1006 (step (LoadSavedIP ''192.168.1.100'' False) initial)))))))
   \<and> (\<exists>w'. current_socket (step (SaveSettings ''10.0.0.7'' False)
        (fail_round 1006 (fail_round 1006 (fail_round 1006 (fail_round 1006
          (fail_round 1006 (step (LoadSavedIP ''192.168.1.100'' False) initial))))))) = Some w'
          \<and> sock_url w' = ''ws://10.0.0.7:8765'' \<and> sock_state w' = CONNECTING)"
proof -
  let ?a = "step (LoadSavedIP ''192.168.1.100'' False) initial"
  let ?s5 = "fail_round 1006 (fail_round 1006 (fail_round 1006 (fail_round 1006
        (fail_round 1006 ?a))))"
  let ?w = "\<lparr>sock_url = ''ws://192.168.1.100:8765'', sock_piIP = ''192.168.1.100'',
          sock_cleanIP = ''192.168.1.100'', sock_state = CLOSED\<rparr>"
  note th = five_failures_exhaust_then_reconfigure [OF ex_attempting_1,
      where ?c1.0 = 1006 and ?c2.0 = 1006 and ?c3.0 = 1006 and ?c4.0 = 1006 and ?c5.0 = 1006
      and w = ?w and code = 1006 and x = "''10.0.0.7''"]
  have t: "trim ''10.0.0.7'' = ''10.0.0.7''" by (simp add: trim_def is_space_def)
  have p: "piIP ?s5 = ''192.168.1.100''" unfolding ex_exhausted by simp
  have a5: "connectionAttempts ?s5 = 5" and t5: "timers ?s5 = []"
    unfolding ex_exhausted by simp_all
  have u: "connect_url ''10.0.0.7'' = ''ws://10.0.0.7:8765''" by (simp add: eval_defs)
  have h: "trim ''10.0.0.7'' \<noteq> [] \<and> trim ''10.0.0.7'' \<noteq> piIP ?s5" by (simp only: t p) simp
  from th h have c: "exhausted ?s5" "timers (ws_onclose ?w 1006 ?s5) = timers ?s5"
    "connectionAttempts (handleSaveSettings ''10.0.0.7'' ?s5) = 0"
    "attempting 1 (step (SaveSettings ''10.0.0.7'' False) ?s5)"
    "\<exists>w'. current_socket (step (SaveSettings ''10.0.0.7'' False) ?s5) = Some w'
          \<and> sock_url w' = connect_url (trim ''10.0.0.7'') \<and> sock_state w' = CONNECTING"
    by blast+
  from c(5) have e: "\<exists>w'. current_socket (step (SaveSettings ''10.0.0.7'' False) ?s5) = Some w'
          \<and> sock_url w' = ''ws://10.0.0.7:8765'' \<and> sock_state w' = CONNECTING"
    by (simp only: t u)
  from c(2) have n: "timers (ws_onclose ?w 1006 ?s5) = []" by (simp only: t5)
  from ex_attempting_1 c(1) a5 t5 n h c(3) c(4) e show ?thesis by (intro conjI) blast+
qed

end
